theory Spec2Isabelle
  imports Complex_Main
begin

section \<open>Data model\<close>

text \<open>
  The client receives its rows from \<^verbatim>\<open>JSON.parse\<close>. A field of a row is therefore absent
  (\<^verbatim>\<open>undefined\<close> when read), \<^verbatim>\<open>null\<close>, or a value. The three cases are kept apart
  because the code tells them apart: a \<^verbatim>\<open>Map\<close> treats \<^verbatim>\<open>undefined\<close>, \<^verbatim>\<open>null\<close> and
  \<^verbatim>\<open>""\<close> as three different keys, \<^verbatim>\<open>x != null\<close> accepts every value, and a truthiness
  test rejects the empty string and the number zero. Text fields carry strings, the
  coordinates carry numbers; a JSON number is never \<^verbatim>\<open>NaN\<close>, so zero is the only falsy
  number.
\<close>

datatype 'a jsval = Undefined | Null | Val 'a

fun truthy_str :: "string jsval \<Rightarrow> bool" where
  "truthy_str (Val s) = (s \<noteq> [])"
| "truthy_str Undefined = False"
| "truthy_str Null = False"

fun truthy_num :: "real jsval \<Rightarrow> bool" where
  "truthy_num (Val x) = (x \<noteq> 0)"
| "truthy_num Undefined = False"
| "truthy_num Null = False"

text \<open>\<^verbatim>\<open>x != null\<close>: loose inequality, false for \<^verbatim>\<open>null\<close> and for \<^verbatim>\<open>undefined\<close>.\<close>

fun not_null :: "'a jsval \<Rightarrow> bool" where
  "not_null (Val x) = True"
| "not_null Undefined = False"
| "not_null Null = False"

text \<open>\<^verbatim>\<open>x || ""\<close> on a text field: the string itself when truthy, the empty string otherwise.\<close>

fun or_empty :: "string jsval \<Rightarrow> string" where
  "or_empty (Val s) = s"
| "or_empty Undefined = []"
| "or_empty Null = []"

text \<open>One backend record: one reporting unit of one incident.\<close>

record callrow =
  incidentNumber :: "string jsval"
  natureOfCall :: "string jsval"
  division :: "string jsval"
  beat :: "string jsval"
  unitNumber :: "string jsval"
  status :: "string jsval"
  address :: "string jsval"
  location :: "string jsval"
  priority :: "string jsval"
  date :: "string jsval"
  time :: "string jsval"
  lat :: "real jsval"
  lon :: "real jsval"

text \<open>
  An incident is built by \<^verbatim>\<open>{ ...row, units: [], unitCount: 0 }\<close>: every field of the row,
  and two more.
\<close>

record incident = callrow +
  units :: "string list"
  unitCount :: nat

section \<open>The insertion-ordered Map of JavaScript\<close>

text \<open>
  A \<^verbatim>\<open>Map\<close> iterates in insertion order; \<^verbatim>\<open>set\<close> on a key that is present replaces the
  value and keeps the key's position, \<^verbatim>\<open>set\<close> on a new key appends. An association list
  with these operations is the model.
\<close>

type_synonym ('k, 'v) jsmap = "('k \<times> 'v) list"

definition Map_has :: "('k, 'v) jsmap \<Rightarrow> 'k \<Rightarrow> bool" where
  "Map_has m k = (k \<in> set (map fst m))"

definition Map_get :: "('k, 'v) jsmap \<Rightarrow> 'k \<Rightarrow> 'v option" where
  "Map_get m k = map_of m k"

fun Map_set :: "('k, 'v) jsmap \<Rightarrow> 'k \<Rightarrow> 'v \<Rightarrow> ('k, 'v) jsmap" where
  "Map_set [] k v = [(k, v)]"
| "Map_set ((k', v') # m) k v =
     (if k' = k then (k, v) # m else (k', v') # Map_set m k v)"

definition Map_values :: "('k, 'v) jsmap \<Rightarrow> 'v list" where
  "Map_values m = map snd m"

section \<open>Consolidation (\<^verbatim>\<open>consolidateData\<close>, public/app.js)\<close>

text \<open>
  The body of the \<^verbatim>\<open>forEach\<close> callback. The incident object held by the map is mutated
  in place by \<^verbatim>\<open>incident.units.push\<close>; no other reference to it exists, so the model
  stores the updated incident back under its key, which keeps its position.
  The unit is pushed only when \<^verbatim>\<open>row.unitNumber\<close> is truthy and not yet included.
\<close>

definition consolidate_row ::
  "(string jsval, incident) jsmap \<Rightarrow> callrow \<Rightarrow> (string jsval, incident) jsmap" where
  "consolidate_row mapByInc row =
     (let inc = incidentNumber row;
          m1 = (if \<not> Map_has mapByInc inc
                then Map_set mapByInc inc (callrow.extend row (incident.fields [] 0))
                else mapByInc)
      in case Map_get m1 inc of
           None \<Rightarrow> m1
         | Some incident \<Rightarrow>
             (case unitNumber row of
                Val u \<Rightarrow>
                  if u \<noteq> [] \<and> u \<notin> set (units incident)
                  then Map_set m1 inc (incident\<lparr>units := units incident @ [u]\<rparr>)
                  else m1
              | Undefined \<Rightarrow> m1
              | Null \<Rightarrow> m1))"

definition consolidateData :: "callrow list \<Rightarrow> incident list" where
  "consolidateData rows =
     map (\<lambda>inc. inc\<lparr>unitCount := length (units inc)\<rparr>)
         (Map_values (foldl consolidate_row [] rows))"

section \<open>What the specification calls first-appearance order\<close>

text \<open>
  Walk a list from the left and keep an element unless it has been seen before.
\<close>

primrec firstSeen :: "'a list \<Rightarrow> 'a list \<Rightarrow> 'a list" where
  "firstSeen seen [] = []"
| "firstSeen seen (x # xs) =
     (if x \<in> set seen then firstSeen seen xs else x # firstSeen (x # seen) xs)"

definition firstAppearance :: "'a list \<Rightarrow> 'a list" where
  "firstAppearance xs = firstSeen [] xs"

text \<open>
  What one row reports: its \<^verbatim>\<open>unitNumber\<close> when that is truthy (a non-empty string),
  nothing otherwise; and the units a list of rows reports, in row order.
\<close>

definition unitOfRow :: "callrow \<Rightarrow> string list" where
  "unitOfRow r =
     (case unitNumber r of
        Val u \<Rightarrow> if u \<noteq> [] then [u] else []
      | Undefined \<Rightarrow> []
      | Null \<Rightarrow> [])"

definition reportedUnits :: "callrow list \<Rightarrow> string list" where
  "reportedUnits rs = concat (map unitOfRow rs)"

text \<open>The rows of one incident number, in input order.\<close>

definition rowsOf :: "string jsval \<Rightarrow> callrow list \<Rightarrow> callrow list" where
  "rowsOf k rows = filter (\<lambda>r. incidentNumber r = k) rows"

text \<open>A non-empty incident number: a string of at least one character.\<close>

definition nonEmptyKey :: "string jsval \<Rightarrow> bool" where
  "nonEmptyKey k = truthy_str k"

section \<open>Strings\<close>

text \<open>
  Strings are lists of characters. \<^verbatim>\<open>toLowerCase\<close> maps the letters A to Z to a to z
  (it sets the bit of value 32) and leaves every other character alone; \<^verbatim>\<open>trim\<close> removes
  leading and trailing white space (tab, line feed, vertical tab, form feed, carriage
  return, space); \<^verbatim>\<open>includes\<close> is the substring test; \<^verbatim>\<open>join(" ")\<close> puts one space
  between neighbours.
\<close>

definition toLowerCase_char :: "char \<Rightarrow> char" where
  "toLowerCase_char c =
     (let n = (of_char c :: nat)
      in if 65 \<le> n \<and> n \<le> 90
         then Char (digit0 c) (digit1 c) (digit2 c) (digit3 c) (digit4 c) True (digit6 c) (digit7 c)
         else c)"

definition toLowerCase :: "string \<Rightarrow> string" where
  "toLowerCase s = map toLowerCase_char s"

definition is_space :: "char \<Rightarrow> bool" where
  "is_space c = (c \<in> set [CHR 0x09, CHR 0x0A, CHR 0x0B, CHR 0x0C, CHR 0x0D, CHR '' ''])"

definition trim :: "string \<Rightarrow> string" where
  "trim s = rev (dropWhile is_space (rev (dropWhile is_space s)))"

fun str_includes :: "string \<Rightarrow> string \<Rightarrow> bool" where
  "str_includes [] needle = (needle = [])"
| "str_includes (c # cs) needle =
     (take (length needle) (c # cs) = needle \<or> str_includes cs needle)"

fun join_space :: "string list \<Rightarrow> string" where
  "join_space [] = []"
| "join_space [u] = u"
| "join_space (u # v # us) = u @ '' '' @ join_space (v # us)"

section \<open>Page state of public/app.js\<close>

text \<open>
  A circle marker: where it is drawn, its radius, and the call its popup was rendered
  from (the popup's HTML is a function of that call alone).
\<close>

record 'c marker =
  latlng :: "real jsval \<times> real jsval"
  radius :: nat
  popup :: 'c

text \<open>
  One entry of the rendered list: the call its texts are taken from, the resolved
  location, and which of the two icons is shown.
\<close>

record 'c list_item =
  item_call :: 'c
  item_loc :: string
  item_mapped :: bool

datatype 'c call_list = Placeholder | Items "'c list_item list"

text \<open>The body of \<^verbatim>\<open>GET /api/calls\<close>.\<close>

record snapshot =
  calls :: "callrow list jsval"
  totalCalls :: "nat jsval"
  mappedCalls :: "nat jsval"
  unmappedCalls :: "nat jsval"
  updatedAt :: "string jsval"
  geocodeAttemptsThisRun :: "nat jsval"
  error :: "string jsval"

text \<open>
  What \<^verbatim>\<open>fetch\<close> gives: the promise rejects (a network error), or it resolves with a
  status code and a body. The body fails to parse as JSON, parses to \<^verbatim>\<open>null\<close>, or parses to
  an object read as a snapshot.
\<close>

datatype body = NotJson | JsonNull | Json snapshot

datatype http_result = Rejected string | Response nat body

definition response_ok :: "nat \<Rightarrow> bool" where
  "response_ok code = (200 \<le> code \<and> code \<le> 299)"

text \<open>
  The module variables and the parts of the page the code writes. \<open>fitBoundsCalls\<close> records
  each call of \<^verbatim>\<open>map.fitBounds\<close> with the points it was given; \<open>el_totalCalls\<close> is the number
  written in front of the word Incidents.
\<close>

record app_state =
  allCallsRaw :: "callrow list"
  consolidatedCalls :: "incident list"
  markerLayer :: "incident marker list"
  markersByIncident :: "(string jsval, incident marker) jsmap"
  firstLoad :: bool
  fitBoundsCalls :: "(real jsval \<times> real jsval) list list"
  el_totalCalls :: nat
  el_mappedCalls :: nat
  el_unmappedCalls :: nat
  el_statusLine :: string
  el_statusColor :: string
  el_callList :: "incident call_list"
  el_listCount :: nat
  el_refreshBtn_disabled :: bool
  el_refreshBtn_spinning :: bool
  el_divisionFilter :: string
  el_searchInput :: string

section \<open>Filtering (\<^verbatim>\<open>getFilteredCalls\<close>, public/app.js)\<close>

text \<open>\<^verbatim>\<open>call.address || call.location || ""\<close>\<close>

definition resolvedLocation :: "'a callrow_scheme \<Rightarrow> string" where
  "resolvedLocation call =
     (if truthy_str (address call) then or_empty (address call) else or_empty (location call))"

text \<open>The callback given to \<^verbatim>\<open>consolidatedCalls.filter\<close>, with its early returns.\<close>

definition filterCallback :: "string \<Rightarrow> string \<Rightarrow> incident \<Rightarrow> bool" where
  "filterCallback divisionValue search call =
     (if divisionValue \<noteq> ''all'' \<and> division call \<noteq> Val divisionValue then False
      else if search \<noteq> [] then
        (let incident = toLowerCase (or_empty (incidentNumber call));
             location = toLowerCase (resolvedLocation call);
             nature = toLowerCase (or_empty (natureOfCall call));
             unitStr = toLowerCase (join_space (units call))
         in if \<not> str_includes incident search \<and>
               \<not> str_includes location search \<and>
               \<not> str_includes nature search \<and>
               \<not> str_includes unitStr search
            then False else True)
      else True)"

definition getFilteredCalls :: "app_state \<Rightarrow> incident list" where
  "getFilteredCalls st =
     (let divisionValue = el_divisionFilter st;
          search = trim (toLowerCase (el_searchInput st))
      in filter (filterCallback divisionValue search) (consolidatedCalls st))"

section \<open>Markers, list and counters (public/app.js)\<close>

definition newMarker :: "incident \<Rightarrow> incident marker" where
  "newMarker call =
     \<lparr>latlng = (lat call, lon call),
      radius = (if priority call = Val ''1'' then 12 else 8),
      popup = call\<rparr>"

text \<open>The body of \<^verbatim>\<open>mapped.forEach\<close> in \<^verbatim>\<open>updateMarkers\<close>.\<close>

definition addMarker :: "app_state \<Rightarrow> incident \<Rightarrow> app_state" where
  "addMarker st call =
     (let marker = newMarker call
      in st\<lparr>markerLayer := markerLayer st @ [marker],
            markersByIncident := Map_set (markersByIncident st) (incidentNumber call) marker\<rparr>)"

definition updateMarkers :: "incident list \<Rightarrow> app_state \<Rightarrow> app_state" where
  "updateMarkers visibleCalls st =
     (let st1 = st\<lparr>markerLayer := [], markersByIncident := []\<rparr>;
          mapped = filter (\<lambda>c. not_null (lat c) \<and> not_null (lon c)) visibleCalls
      in foldl addMarker st1 mapped)"

text \<open>\<^verbatim>\<open>call.address || call.location || "Unknown Location"\<close> and the icon test
  \<^verbatim>\<open>call.lat && call.lon\<close> of \<^verbatim>\<open>renderList\<close>.\<close>

definition listItem :: "incident \<Rightarrow> incident list_item" where
  "listItem call =
     \<lparr>item_call = call,
      item_loc = (if truthy_str (address call) then or_empty (address call)
                  else if truthy_str (location call) then or_empty (location call)
                  else ''Unknown Location''),
      item_mapped = (truthy_num (lat call) \<and> truthy_num (lon call))\<rparr>"

definition renderList :: "incident list \<Rightarrow> app_state \<Rightarrow> app_state" where
  "renderList cs st =
     (let st1 = st\<lparr>el_listCount := length cs\<rparr>
      in if length cs = 0 then st1\<lparr>el_callList := Placeholder\<rparr>
         else st1\<lparr>el_callList := Items (map listItem (take 100 cs))\<rparr>)"

definition updateStats :: "snapshot \<Rightarrow> incident list \<Rightarrow> app_state \<Rightarrow> app_state" where
  "updateStats data callsPerIncident st =
     (let st1 = st\<lparr>el_totalCalls := length callsPerIncident\<rparr>;
          mappedCount = length (filter (\<lambda>c. truthy_num (lat c) \<and> truthy_num (lon c)) callsPerIncident);
          st2 = st1\<lparr>el_mappedCalls := mappedCount,
                    el_unmappedCalls := length callsPerIncident - mappedCount\<rparr>
      in if truthy_str (error data)
         then st2\<lparr>el_statusLine := ''Error: '' @ or_empty (error data), el_statusColor := ''#ff3344''\<rparr>
         else st2\<lparr>el_statusLine := ''System Operational | Live Data'', el_statusColor := ''#00cc66''\<rparr>)"

text \<open>
  \<^verbatim>\<open>syncDivisions\<close>: writing the options resets the control to its first option, \<^verbatim>\<open>all\<close>;
  the previous value is put back when it is one of the divisions.
\<close>

definition syncDivisions :: "app_state \<Rightarrow> app_state" where
  "syncDivisions st =
     (let current = el_divisionFilter st;
          divs = map (\<lambda>c. or_empty (division c))
                     (filter (\<lambda>c. truthy_str (division c)) (consolidatedCalls st))
      in st\<lparr>el_divisionFilter := (if current \<in> set divs then current else ''all'')\<rparr>)"

text \<open>
  \<^verbatim>\<open>window.focusCall\<close>. Its argument is the string written into the \<^verbatim>\<open>onclick\<close> attribute;
  \<^verbatim>\<open>find\<close> compares with \<^verbatim>\<open>===\<close>, so only a call whose number is that string matches.
\<close>

datatype focus_effect =
  NoEffect
| FlyTo "real jsval \<times> real jsval" "incident marker option"
| Alert string

definition focusCall :: "string \<Rightarrow> app_state \<Rightarrow> focus_effect" where
  "focusCall incNo st =
     (case find (\<lambda>c. incidentNumber c = Val incNo) (consolidatedCalls st) of
        None \<Rightarrow> NoEffect
      | Some call \<Rightarrow>
          if truthy_num (lat call) \<and> truthy_num (lon call)
          then FlyTo (lat call, lon call) (Map_get (markersByIncident st) (Val incNo))
          else Alert ''Location not mapped yet.'')"

definition render :: "app_state \<Rightarrow> app_state" where
  "render st = (let filtered = getFilteredCalls st in renderList filtered (updateMarkers filtered st))"

section \<open>Polling and manual refresh (public/app.js)\<close>

text \<open>\<^verbatim>\<open>data.calls || []\<close>\<close>

definition callsOrEmpty :: "snapshot \<Rightarrow> callrow list" where
  "callsOrEmpty data = (case calls data of Val rows \<Rightarrow> rows | Undefined \<Rightarrow> [] | Null \<Rightarrow> [])"

text \<open>The \<^verbatim>\<open>if (firstLoad)\<close> block of \<^verbatim>\<open>fetchCalls\<close>.\<close>

definition firstLoadBlock :: "app_state \<Rightarrow> app_state" where
  "firstLoadBlock st =
     (if firstLoad st then
        (let st1 = (syncDivisions st)\<lparr>firstLoad := False\<rparr>;
             mapped = filter (\<lambda>c. truthy_num (lat c) \<and> truthy_num (lon c)) (consolidatedCalls st1)
         in if length mapped > 0
            then st1\<lparr>fitBoundsCalls := fitBoundsCalls st1 @ [map (\<lambda>c. (lat c, lon c)) mapped]\<rparr>
            else st1)
      else st)"

text \<open>The \<^verbatim>\<open>try\<close> block once \<^verbatim>\<open>res.json()\<close> has produced \<open>data\<close>.\<close>

definition applySnapshot :: "snapshot \<Rightarrow> app_state \<Rightarrow> app_state" where
  "applySnapshot data st =
     (let st1 = st\<lparr>allCallsRaw := callsOrEmpty data\<rparr>;
          st2 = st1\<lparr>consolidatedCalls := consolidateData (allCallsRaw st1)\<rparr>;
          st3 = updateStats data (consolidatedCalls st2) st2
      in render (firstLoadBlock st3))"

text \<open>
  \<^verbatim>\<open>fetchCalls\<close>: the \<^verbatim>\<open>catch\<close> branch is taken when \<^verbatim>\<open>fetch\<close> rejects, when \<^verbatim>\<open>res.json()\<close>
  rejects, and when \<^verbatim>\<open>data.calls\<close> is read from \<^verbatim>\<open>null\<close>; all three happen before any
  assignment. The status code is never read. The \<^verbatim>\<open>finally\<close> branch ends every path.
\<close>

definition fetchCalls :: "http_result \<Rightarrow> app_state \<Rightarrow> app_state" where
  "fetchCalls res st =
     (let st0 = st\<lparr>el_refreshBtn_spinning := True\<rparr>;
          caught = st0\<lparr>el_statusLine := ''Connection Lost'', el_statusColor := ''red''\<rparr>;
          st1 = (case res of
                   Rejected e \<Rightarrow> caught
                 | Response code b \<Rightarrow>
                     (case b of
                        NotJson \<Rightarrow> caught
                      | JsonNull \<Rightarrow> caught
                      | Json data \<Rightarrow> applySnapshot data st0))
      in st1\<lparr>el_refreshBtn_spinning := False\<rparr>)"

text \<open>
  An asynchronous handler is written as the list of points at which it is observed, each
  with the page state at that point: while the refresh request is in flight, during the
  settling delay, when the data fetch starts, and when everything has finished.
\<close>

datatype phase = Requesting | Settling | Fetching | Finished

text \<open>
  \<^verbatim>\<open>triggerRefresh\<close>: after \<^verbatim>\<open>await fetch(API_REFRESH_URL)\<close> the handler registers
  \<^verbatim>\<open>fetchCalls\<close> with \<^verbatim>\<open>setTimeout\<close> and falls through to \<^verbatim>\<open>finally\<close> at once; the timer
  fires one second later. The first argument says whether the refresh request resolved.
\<close>

definition triggerRefresh :: "bool \<Rightarrow> http_result \<Rightarrow> app_state \<Rightarrow> (phase \<times> app_state) list" where
  "triggerRefresh refreshResolved res st =
     (let st1 = st\<lparr>el_refreshBtn_disabled := True, el_statusLine := ''Requesting update...''\<rparr>;
          st2 = st1\<lparr>el_refreshBtn_disabled := False\<rparr>
      in if refreshResolved
         then [(Requesting, st1), (Settling, st2), (Fetching, st2), (Finished, fetchCalls res st2)]
         else [(Requesting, st1), (Finished, st2)])"

text \<open>What can happen to the page after boot, and a run of such events.\<close>

datatype event =
  Poll http_result
| FilterChange string string
| RefreshClick bool http_result

definition step :: "app_state \<Rightarrow> event \<Rightarrow> app_state" where
  "step st ev =
     (case ev of
        Poll res \<Rightarrow> fetchCalls res st
      | FilterChange d s \<Rightarrow> render (st\<lparr>el_divisionFilter := d, el_searchInput := s\<rparr>)
      | RefreshClick ok res \<Rightarrow> snd (last (triggerRefresh ok res st)))"

definition run :: "event list \<Rightarrow> app_state \<Rightarrow> app_state" where
  "run evs st = foldl step st evs"

section \<open>The second client script\<close>

text \<open>
  The repository holds a second script for the same page. It has no consolidation: it
  keeps the rows as they arrive, draws one marker per row, and prints the counters of the
  backend. Names that it shares with public/app.js carry the suffix \<open>_p0\<close> here.

  \<^verbatim>\<open>Number.isFinite\<close> is true of numbers only; every number of the model is finite.
\<close>

fun isFinite :: "real jsval \<Rightarrow> bool" where
  "isFinite (Val x) = True"
| "isFinite Undefined = False"
| "isFinite Null = False"

text \<open>Why a pull failed: the argument of the \<^verbatim>\<open>catch\<close> clause of \<^verbatim>\<open>pullLatest\<close>.\<close>

datatype pull_error = NetworkFailure string | HttpStatus nat | JsonSyntax | TypeError

text \<open>
  The status line is either the line written by \<^verbatim>\<open>updateStatus\<close> (time stamp, geocode
  attempts, error text of the snapshot) or the line written by the \<^verbatim>\<open>catch\<close> clause.
\<close>

datatype status_line =
  Updated "string jsval" nat "string jsval"
| UnableToLoad pull_error
| InitialText

record state_p0 =
  allCalls :: "callrow list"
  markerLayer_p0 :: "callrow marker list"
  markerByIncident :: "(string jsval, callrow marker) jsmap"
  lastFitDone :: bool
  fitBoundsCalls_p0 :: "(real jsval \<times> real jsval) list list"
  totalCallsEl :: nat
  mappedCallsEl :: nat
  unmappedCallsEl :: nat
  statusLineEl :: status_line
  callListEl :: "callrow call_list"
  refreshBtnEl_disabled :: bool
  refreshBtnEl_text :: string
  divisionFilterEl :: string

definition newMarker_p0 :: "callrow \<Rightarrow> callrow marker" where
  "newMarker_p0 call = \<lparr>latlng = (lat call, lon call), radius = 7, popup = call\<rparr>"

definition upsertMarker :: "state_p0 \<Rightarrow> callrow \<Rightarrow> state_p0" where
  "upsertMarker st call =
     (if \<not> isFinite (lat call) \<or> \<not> isFinite (lon call) then st
      else (let marker = newMarker_p0 call
            in st\<lparr>markerByIncident := Map_set (markerByIncident st) (incidentNumber call) marker,
                  markerLayer_p0 := markerLayer_p0 st @ [marker]\<rparr>))"

definition clearAndRenderMarkers :: "callrow list \<Rightarrow> state_p0 \<Rightarrow> state_p0" where
  "clearAndRenderMarkers cs st =
     (let st1 = st\<lparr>markerLayer_p0 := [], markerByIncident := []\<rparr>;
          mappedRows = filter (\<lambda>call. isFinite (lat call) \<and> isFinite (lon call)) cs;
          st2 = foldl upsertMarker st1 mappedRows
      in if \<not> lastFitDone st2 \<and> length mappedRows > 0
         then st2\<lparr>fitBoundsCalls_p0 := fitBoundsCalls_p0 st2 @ [map (\<lambda>call. (lat call, lon call)) mappedRows],
                  lastFitDone := True\<rparr>
         else st2)"

definition listItem_p0 :: "callrow \<Rightarrow> callrow list_item" where
  "listItem_p0 call =
     \<lparr>item_call = call,
      item_loc = (if truthy_str (address call) then or_empty (address call)
                  else if truthy_str (location call) then or_empty (location call)
                  else ''Location unavailable''),
      item_mapped = (isFinite (lat call) \<and> isFinite (lon call))\<rparr>"

definition renderCallList :: "callrow list \<Rightarrow> state_p0 \<Rightarrow> state_p0" where
  "renderCallList cs st =
     (if length cs = 0 then st\<lparr>callListEl := Placeholder\<rparr>
      else st\<lparr>callListEl := Items (map listItem_p0 (take 250 cs))\<rparr>)"

definition getFilteredCalls_p0 :: "state_p0 \<Rightarrow> callrow list" where
  "getFilteredCalls_p0 st =
     (let divisionValue = divisionFilterEl st
      in if divisionValue = ''all'' then allCalls st
         else filter (\<lambda>call. division call = Val divisionValue) (allCalls st))"

definition syncDivisionFilter :: "callrow list \<Rightarrow> state_p0 \<Rightarrow> state_p0" where
  "syncDivisionFilter cs st =
     (let current = (if divisionFilterEl st \<noteq> [] then divisionFilterEl st else ''all'');
          divisions = map (\<lambda>c. or_empty (division c)) (filter (\<lambda>c. truthy_str (division c)) cs)
      in if current \<in> set divisions then st\<lparr>divisionFilterEl := current\<rparr>
         else st\<lparr>divisionFilterEl := ''all''\<rparr>)"

text \<open>\<^verbatim>\<open>x ?? 0\<close>\<close>

fun orZero :: "nat jsval \<Rightarrow> nat" where
  "orZero (Val n) = n"
| "orZero Undefined = 0"
| "orZero Null = 0"

definition updateStatus :: "snapshot \<Rightarrow> state_p0 \<Rightarrow> state_p0" where
  "updateStatus data st =
     st\<lparr>totalCallsEl := orZero (totalCalls data),
        mappedCallsEl := orZero (mappedCalls data),
        unmappedCallsEl := orZero (unmappedCalls data),
        statusLineEl := Updated (updatedAt data) (orZero (geocodeAttemptsThisRun data)) (error data)\<rparr>"

definition render_p0 :: "state_p0 \<Rightarrow> state_p0" where
  "render_p0 st = (let cs = getFilteredCalls_p0 st in renderCallList cs (clearAndRenderMarkers cs st))"

text \<open>
  \<^verbatim>\<open>fetchCalls\<close> of this script throws on a rejected fetch, on a status outside 200 to 299,
  and on a body that is not JSON; otherwise it returns the parsed body.
\<close>

definition fetchCalls_p0 :: "http_result \<Rightarrow> pull_error + body" where
  "fetchCalls_p0 res =
     (case res of
        Rejected e \<Rightarrow> Inl (NetworkFailure e)
      | Response code b \<Rightarrow>
          if \<not> response_ok code then Inl (HttpStatus code)
          else (case b of NotJson \<Rightarrow> Inl JsonSyntax | JsonNull \<Rightarrow> Inr JsonNull | Json data \<Rightarrow> Inr (Json data)))"

definition pullLatest :: "http_result \<Rightarrow> state_p0 \<Rightarrow> state_p0" where
  "pullLatest res st =
     (case fetchCalls_p0 res of
        Inl err \<Rightarrow> st\<lparr>statusLineEl := UnableToLoad err\<rparr>
      | Inr b \<Rightarrow>
          (case b of
             Json data \<Rightarrow>
               (let st1 = st\<lparr>allCalls := callsOrEmpty data\<rparr>;
                    st2 = syncDivisionFilter (allCalls st1) st1;
                    st3 = updateStatus data st2
                in render_p0 st3)
           | JsonNull \<Rightarrow> st\<lparr>statusLineEl := UnableToLoad TypeError\<rparr>
           | NotJson \<Rightarrow> st\<lparr>statusLineEl := UnableToLoad JsonSyntax\<rparr>))"

text \<open>
  \<^verbatim>\<open>triggerServerRefresh\<close> awaits the refresh request, the delay and \<^verbatim>\<open>pullLatest\<close> inside
  one \<^verbatim>\<open>try\<close>; its \<^verbatim>\<open>finally\<close> runs after all three, or after the request has rejected.
\<close>

definition triggerServerRefresh :: "bool \<Rightarrow> http_result \<Rightarrow> state_p0 \<Rightarrow> (phase \<times> state_p0) list" where
  "triggerServerRefresh refreshResolved res st =
     (let st1 = st\<lparr>refreshBtnEl_disabled := True, refreshBtnEl_text := ''Refreshing...''\<rparr>
      in if refreshResolved
         then [(Requesting, st1), (Settling, st1), (Fetching, st1),
               (Finished, (pullLatest res st1)\<lparr>refreshBtnEl_disabled := False,
                                                refreshBtnEl_text := ''Refresh Now''\<rparr>)]
         else [(Requesting, st1),
               (Finished, st1\<lparr>refreshBtnEl_disabled := False, refreshBtnEl_text := ''Refresh Now''\<rparr>)])"

definition step_p0 :: "state_p0 \<Rightarrow> event \<Rightarrow> state_p0" where
  "step_p0 st ev =
     (case ev of
        Poll res \<Rightarrow> pullLatest res st
      | FilterChange d s \<Rightarrow> render_p0 (st\<lparr>divisionFilterEl := d\<rparr>)
      | RefreshClick ok res \<Rightarrow> snd (last (triggerServerRefresh ok res st)))"

definition run_p0 :: "event list \<Rightarrow> state_p0 \<Rightarrow> state_p0" where
  "run_p0 evs st = foldl step_p0 st evs"

section \<open>Consolidation, as the specification describes its result\<close>

text \<open>
  The incident of number \<open>k\<close>: the fields of the first row that carries \<open>k\<close>, the distinct
  units reported by the rows that carry \<open>k\<close> in first-appearance order, and their count.
  \<open>rawIncident\<close> is the same object before the counts are filled in.
\<close>

definition rawIncident :: "string jsval \<Rightarrow> callrow list \<Rightarrow> incident" where
  "rawIncident k rows =
     callrow.extend (hd (rowsOf k rows))
       (incident.fields (firstAppearance (reportedUnits (rowsOf k rows))) 0)"

definition incidentOf :: "string jsval \<Rightarrow> callrow list \<Rightarrow> incident" where
  "incidentOf k rows =
     callrow.extend (hd (rowsOf k rows))
       (incident.fields (firstAppearance (reportedUnits (rowsOf k rows)))
                        (length (firstAppearance (reportedUnits (rowsOf k rows)))))"

section \<open>Example data\<close>

text \<open>A row with no field at all, and the three rows of the specification's example.\<close>

definition emptyRow :: callrow where
  "emptyRow =
     \<lparr>incidentNumber = Undefined, natureOfCall = Undefined, division = Undefined,
      beat = Undefined, unitNumber = Undefined, status = Undefined, address = Undefined,
      location = Undefined, priority = Undefined, date = Undefined, time = Undefined,
      lat = Undefined, lon = Undefined\<rparr>"

definition rowA1_101 :: callrow where
  "rowA1_101 =
     emptyRow\<lparr>incidentNumber := Val ''A1'', unitNumber := Val ''101'', lat := Val 1, lon := Val 2,
              division := Val ''C'', priority := Val ''1'', natureOfCall := Val ''Fire''\<rparr>"

definition rowA1_102 :: callrow where
  "rowA1_102 = emptyRow\<lparr>incidentNumber := Val ''A1'', unitNumber := Val ''102''\<rparr>"

definition rowB2_201 :: callrow where
  "rowB2_201 =
     emptyRow\<lparr>incidentNumber := Val ''B2'', unitNumber := Val ''201'',
              division := Val ''D'', priority := Val ''3''\<rparr>"

definition exampleRows :: "callrow list" where
  "exampleRows = [rowA1_101, rowA1_102, rowB2_201]"

definition incidentA1 :: incident where
  "incidentA1 = callrow.extend rowA1_101 (incident.fields [''101'', ''102''] 2)"

definition incidentB2 :: incident where
  "incidentB2 = callrow.extend rowB2_201 (incident.fields [''201''] 1)"

text \<open>Further rows used as examples: a row whose unit number is the empty string, rows
  whose incident number is missing in the three possible ways, and two rows without an
  incident number around a numbered one.\<close>

definition rowNoUnit :: callrow where
  "rowNoUnit = emptyRow\<lparr>incidentNumber := Val ''C3'', unitNumber := Val []\<rparr>"

definition missingKeyRows :: "callrow list" where
  "missingKeyRows =
     [emptyRow\<lparr>unitNumber := Val ''1''\<rparr>,
      emptyRow\<lparr>incidentNumber := Null, unitNumber := Val ''2''\<rparr>,
      emptyRow\<lparr>incidentNumber := Val [], unitNumber := Val ''3''\<rparr>]"

definition unnumberedRows :: "callrow list" where
  "unnumberedRows =
     [emptyRow\<lparr>unitNumber := Val ''1'', natureOfCall := Val ''First''\<rparr>,
      rowA1_101,
      emptyRow\<lparr>unitNumber := Val ''2'', natureOfCall := Val ''Later''\<rparr>]"

definition unnumberedIncident :: incident where
  "unnumberedIncident =
     callrow.extend (emptyRow\<lparr>unitNumber := Val ''1'', natureOfCall := Val ''First''\<rparr>)
       (incident.fields [''1'', ''2''] 2)"

text \<open>The two predicates of the filter, in the specification's words. The search text
  is trimmed and case-folded; the fields are case-folded too, which is what makes the
  search case-insensitive.\<close>

definition divisionPredicate :: "string \<Rightarrow> incident \<Rightarrow> bool" where
  "divisionPredicate d c = (d = ''all'' \<or> division c = Val d)"

definition searchPredicate :: "string \<Rightarrow> incident \<Rightarrow> bool" where
  "searchPredicate searchText c =
     (let q = toLowerCase (trim searchText)
      in q = [] \<or>
         str_includes (toLowerCase (or_empty (incidentNumber c))) q \<or>
         str_includes (toLowerCase (resolvedLocation c)) q \<or>
         str_includes (toLowerCase (or_empty (natureOfCall c))) q \<or>
         str_includes (toLowerCase (join_space (units c))) q)"

text \<open>A page state that holds the two incidents of the example.\<close>

definition exampleState :: app_state where
  "exampleState =
     \<lparr>allCallsRaw = exampleRows, consolidatedCalls = [incidentA1, incidentB2],
      markerLayer = [], markersByIncident = [], firstLoad = False, fitBoundsCalls = [],
      el_totalCalls = 0, el_mappedCalls = 0, el_unmappedCalls = 0,
      el_statusLine = [], el_statusColor = [], el_callList = Placeholder, el_listCount = 0,
      el_refreshBtn_disabled = False, el_refreshBtn_spinning = False,
      el_divisionFilter = ''all'', el_searchInput = []\<rparr>"

text \<open>A page state of the second script, and a stale marker left by an earlier sync.\<close>

definition exampleState_p0 :: state_p0 where
  "exampleState_p0 =
     \<lparr>allCalls = [rowA1_101, rowB2_201],
      markerLayer_p0 = [newMarker_p0 rowB2_201],
      markerByIncident = [(Val ''B2'', newMarker_p0 rowB2_201)],
      lastFitDone = False, fitBoundsCalls_p0 = [],
      totalCallsEl = 0, mappedCallsEl = 0, unmappedCallsEl = 0,
      statusLineEl = InitialText, callListEl = Placeholder,
      refreshBtnEl_disabled = False, refreshBtnEl_text = ''Refresh Now'',
      divisionFilterEl = ''all''\<rparr>"

definition staleState :: app_state where
  "staleState =
     exampleState\<lparr>markerLayer := [newMarker incidentB2],
                  markersByIncident := [(Val ''B2'', newMarker incidentB2)]\<rparr>"

text \<open>Both coordinates present: neither \<^verbatim>\<open>null\<close> nor absent.\<close>

definition hasBothCoordinates :: "'a callrow_scheme \<Rightarrow> bool" where
  "hasBothCoordinates c = (not_null (lat c) \<and> not_null (lon c))"

text \<open>The test \<^verbatim>\<open>c.lat && c.lon\<close> that the counters, the list, the focus operation and the
  first-load fit apply.\<close>

definition truthyCoordinates :: "'a callrow_scheme \<Rightarrow> bool" where
  "truthyCoordinates c = (truthy_num (lat c) \<and> truthy_num (lon c))"

text \<open>An incident on the equator: latitude zero, longitude given.\<close>

definition zeroLatIncident :: incident where
  "zeroLatIncident = incidentA1\<lparr>lat := Val 0, lon := Val (-96)\<rparr>"

definition exampleSnapshot :: snapshot where
  "exampleSnapshot =
     \<lparr>calls = Val exampleRows, totalCalls = Val 3, mappedCalls = Val 1, unmappedCalls = Val 2,
      updatedAt = Val ''2024-01-01T00:00:00Z'', geocodeAttemptsThisRun = Val 0,
      error = Undefined\<rparr>"

text \<open>The page after the example snapshot has been loaded and rendered, and the body
  \<^verbatim>\<open>{"error": "Internal Server Error"}\<close> of an error response.\<close>

definition loadedState :: app_state where
  "loadedState =
     exampleState\<lparr>markerLayer := [newMarker incidentA1],
                  markersByIncident := [(Val ''A1'', newMarker incidentA1)],
                  el_totalCalls := 2, el_mappedCalls := 1, el_unmappedCalls := 1,
                  el_statusLine := ''System Operational | Live Data'',
                  el_statusColor := ''#00cc66'',
                  el_callList := Items [listItem incidentA1, listItem incidentB2],
                  el_listCount := 2\<rparr>"

definition errorSnapshot :: snapshot where
  "errorSnapshot =
     \<lparr>calls = Undefined, totalCalls = Undefined, mappedCalls = Undefined,
      unmappedCalls = Undefined, updatedAt = Undefined, geocodeAttemptsThisRun = Undefined,
      error = Val ''Internal Server Error''\<rparr>"

text \<open>Whether the refresh control is disabled at each point of a handler's course.\<close>

definition disabledAt :: "(phase \<times> app_state) list \<Rightarrow> (phase \<times> bool) list" where
  "disabledAt tr = map (\<lambda>(ph, s). (ph, el_refreshBtn_disabled s)) tr"

definition disabledAt_p0 :: "(phase \<times> state_p0) list \<Rightarrow> (phase \<times> bool) list" where
  "disabledAt_p0 tr = map (\<lambda>(ph, s). (ph, refreshBtnEl_disabled s)) tr"

text \<open>The page right after boot.\<close>

definition bootState :: app_state where
  "bootState = exampleState\<lparr>allCallsRaw := [], consolidatedCalls := [], firstLoad := True\<rparr>"

text \<open>The second script has fitted at most once so far, and not at all while its flag is
  down.\<close>

definition fitFlagConsistent :: "state_p0 \<Rightarrow> bool" where
  "fitFlagConsistent st =
     (if lastFitDone st then length (fitBoundsCalls_p0 st) \<le> 1 else fitBoundsCalls_p0 st = [])"

text \<open>The page of the second script right after boot; a first response with status 500
  and a JSON body followed by the example; and a snapshot whose only row lies on the
  equator, with the incident that consolidation makes of it.\<close>

definition bootState_p0 :: state_p0 where
  "bootState_p0 = exampleState_p0\<lparr>allCalls := [], markerLayer_p0 := [], markerByIncident := []\<rparr>"

definition errorThenExample :: "event list" where
  "errorThenExample =
     [Poll (Response 500 (Json errorSnapshot)), Poll (Response 200 (Json exampleSnapshot))]"

definition zeroLatRow :: callrow where
  "zeroLatRow = rowA1_101\<lparr>lat := Val 0, lon := Val (-96)\<rparr>"

definition zeroLatSnapshot :: snapshot where
  "zeroLatSnapshot = exampleSnapshot\<lparr>calls := Val [zeroLatRow], totalCalls := Val 1,
                                      mappedCalls := Val 1, unmappedCalls := Val 0\<rparr>"

definition zeroLatLoaded :: incident where
  "zeroLatLoaded = callrow.extend zeroLatRow (incident.fields [''101''] 1)"

text \<open>The first-load flag of public/app.js and its fits agree: nothing is fitted while
  the flag is up, and at most one fit has happened once it is down.\<close>

definition firstLoadConsistent :: "app_state \<Rightarrow> bool" where
  "firstLoadConsistent st =
     (if firstLoad st then fitBoundsCalls st = [] else length (fitBoundsCalls st) \<le> 1)"

text \<open>The argument that \<^verbatim>\<open>renderList\<close> writes into the \<^verbatim>\<open>onclick\<close> attribute of an item,
  \<^verbatim>\<open>focusCall('${call.incidentNumber}')\<close>: the template literal turns an absent number into
  the text \<^verbatim>\<open>undefined\<close> and \<^verbatim>\<open>null\<close> into the text \<^verbatim>\<open>null\<close>. (The attribute is not escaped;
  numbers that contain a quote character are not considered.)\<close>

definition onclickArgument :: "'a callrow_scheme \<Rightarrow> string" where
  "onclickArgument call =
     (case incidentNumber call of
        Val s \<Rightarrow> s
      | Undefined \<Rightarrow> ''undefined''
      | Null \<Rightarrow> ''null'')"

text \<open>The items that the list shows.\<close>

definition shownItems :: "'c call_list \<Rightarrow> 'c list_item list" where
  "shownItems cl = (case cl of Placeholder \<Rightarrow> [] | Items its \<Rightarrow> its)"

text \<open>A hundred unmapped incidents numbered x, xx, xxx and so on, followed by the
  incident on the equator; the incident on the equator without its number; and a page
  that holds the incident on the equator and B2.\<close>

definition crowdedList :: "incident list" where
  "crowdedList =
     map (\<lambda>k. incidentB2\<lparr>incidentNumber := Val (replicate (Suc k) CHR ''x'')\<rparr>) [0..<100]
     @ [zeroLatIncident]"

definition unnumberedZero :: incident where
  "unnumberedZero = zeroLatIncident\<lparr>incidentNumber := Undefined\<rparr>"

definition zeroLatState :: app_state where
  "zeroLatState = exampleState\<lparr>consolidatedCalls := [zeroLatIncident, incidentB2]\<rparr>"

section \<open>Facts about first-appearance order\<close>

lemma firstSeen_set: "set (firstSeen seen xs) = set xs - set seen"
  by (induction xs arbitrary: seen) auto

lemma firstSeen_distinct: "distinct (firstSeen seen xs)"
  by (induction xs arbitrary: seen) (auto simp: firstSeen_set)

lemma firstSeen_snoc:
  "firstSeen seen (xs @ [x]) =
     firstSeen seen xs @ (if x \<in> set seen \<union> set xs then [] else [x])"
  by (induction xs arbitrary: seen) auto

lemma firstAppearance_set: "set (firstAppearance xs) = set xs"
  by (simp add: firstAppearance_def firstSeen_set)

lemma firstAppearance_distinct: "distinct (firstAppearance xs)"
  by (simp add: firstAppearance_def firstSeen_distinct)

lemma firstAppearance_snoc:
  "firstAppearance (xs @ [x]) =
     (if x \<in> set xs then firstAppearance xs else firstAppearance xs @ [x])"
  by (simp add: firstAppearance_def firstSeen_snoc)

lemma firstAppearance_Nil: "firstAppearance [] = []"
  by (simp add: firstAppearance_def)


section \<open>Facts about the Map and the consolidation loop\<close>

lemma Map_has_keyed: "Map_has (map (\<lambda>k. (k, f k)) ks) k = (k \<in> set ks)"
  by (simp add: Map_has_def comp_def)

lemma Map_get_keyed: "k \<in> set ks \<Longrightarrow> Map_get (map (\<lambda>k. (k, f k)) ks) k = Some (f k)"
  by (induction ks) (auto simp: Map_get_def)

lemma Map_set_keyed_new:
  "k \<notin> set ks \<Longrightarrow> Map_set (map (\<lambda>j. (j, f j)) ks) k v = map (\<lambda>j. (j, f j)) ks @ [(k, v)]"
  by (induction ks) auto

lemma Map_set_keyed_old:
  "k \<in> set ks \<Longrightarrow> distinct ks \<Longrightarrow>
   Map_set (map (\<lambda>j. (j, f j)) ks) k v = map (\<lambda>j. (j, if j = k then v else f j)) ks"
  by (induction ks) auto


lemma rowsOf_snoc:
  "rowsOf k (ps @ [r]) = (if incidentNumber r = k then rowsOf k ps @ [r] else rowsOf k ps)"
  by (simp add: rowsOf_def)

lemma rowsOf_empty_iff: "rowsOf k ps = [] \<longleftrightarrow> k \<notin> set (map incidentNumber ps)"
  by (auto simp: rowsOf_def filter_empty_conv)

lemma reportedUnits_snoc: "reportedUnits (ps @ [r]) = reportedUnits ps @ unitOfRow r"
  by (simp add: reportedUnits_def)

lemma reportedUnits_Nil: "reportedUnits [] = []"
  by (simp add: reportedUnits_def)

lemma consolidate_row_new:
  assumes inv: "m = map (\<lambda>k. (k, rawIncident k ps)) (firstAppearance (map incidentNumber ps))"
    and new: "incidentNumber r \<notin> set (map incidentNumber ps)"
  shows "consolidate_row m r =
         map (\<lambda>k. (k, rawIncident k (ps @ [r]))) (firstAppearance (map incidentNumber (ps @ [r])))"
proof -
  let ?k0 = "incidentNumber r"
  let ?K = "firstAppearance (map incidentNumber ps)"
  define base where "base = callrow.extend r (incident.fields [] 0)"
  define g where "g = (\<lambda>j. if j = ?k0 then base else rawIncident j ps)"
  define M1 where "M1 = map (\<lambda>j. (j, g j)) (?K @ [?k0])"
  have notin: "?k0 \<notin> set ?K" using new by (simp add: firstAppearance_set)
  have dist: "distinct (?K @ [?k0])" using notin by (simp add: firstAppearance_distinct)
  have m1: "Map_set m ?k0 base = M1"
    using notin by (simp add: inv Map_set_keyed_new M1_def g_def)
  have has: "\<not> Map_has m ?k0" using notin by (simp add: inv Map_has_keyed)
  have get: "Map_get M1 ?k0 = Some base"
    unfolding M1_def by (subst Map_get_keyed) (simp_all add: g_def)
  have keys: "firstAppearance (map incidentNumber (ps @ [r])) = ?K @ [?k0]"
    using new by (simp add: firstAppearance_snoc)
  have others: "\<And>j. j \<in> set ?K \<Longrightarrow> rawIncident j (ps @ [r]) = rawIncident j ps"
    using notin by (auto simp: rawIncident_def rowsOf_snoc)
  have rows0: "rowsOf ?k0 ps = []" using new by (simp add: rowsOf_empty_iff)
  have ub: "units base = []" by (simp add: base_def callrow.defs incident.defs)
  have mine: "rawIncident ?k0 (ps @ [r]) = base\<lparr>units := firstAppearance (unitOfRow r)\<rparr>"
    by (simp add: rawIncident_def rowsOf_snoc rows0 reportedUnits_def base_def
        callrow.defs incident.defs)
  have upd: "Map_set M1 ?k0 v = map (\<lambda>j. (j, if j = ?k0 then v else g j)) (?K @ [?k0])" for v
    unfolding M1_def using dist by (subst Map_set_keyed_old) simp_all
  have target: "map (\<lambda>k. (k, rawIncident k (ps @ [r]))) (?K @ [?k0]) =
                map (\<lambda>j. (j, if j = ?k0 then rawIncident ?k0 (ps @ [r]) else g j)) (?K @ [?k0])"
    using others notin by (auto simp: g_def)
  have noop: "M1 = map (\<lambda>j. (j, if j = ?k0 then base else g j)) (?K @ [?k0])"
    by (simp add: M1_def g_def)
  have step: "consolidate_row m r =
        (case unitNumber r of
           Val u \<Rightarrow> if u \<noteq> [] \<and> u \<notin> set (units base)
                    then Map_set M1 ?k0 (base\<lparr>units := units base @ [u]\<rparr>) else M1
         | Undefined \<Rightarrow> M1 | Null \<Rightarrow> M1)"
    unfolding consolidate_row_def Let_def base_def[symmetric]
    by (simp add: has m1 get cong: jsval.case_cong if_cong)
  have fin: "(case unitNumber r of
           Val u \<Rightarrow> if u \<noteq> [] \<and> u \<notin> set (units base)
                    then Map_set M1 ?k0 (base\<lparr>units := units base @ [u]\<rparr>) else M1
         | Undefined \<Rightarrow> M1 | Null \<Rightarrow> M1) =
        map (\<lambda>j. (j, if j = ?k0 then base\<lparr>units := firstAppearance (unitOfRow r)\<rparr> else g j)) (?K @ [?k0])"
  proof (cases "unitNumber r")
    case Undefined
    have "base\<lparr>units := []\<rparr> = base" using ub by simp
    then show ?thesis using Undefined noop
      by (simp add: unitOfRow_def firstAppearance_Nil)
  next
    case Null
    have "base\<lparr>units := []\<rparr> = base" using ub by simp
    then show ?thesis using Null noop
      by (simp add: unitOfRow_def firstAppearance_Nil)
  next
    case (Val u)
    show ?thesis
    proof (cases "u = []")
      case True
      have "base\<lparr>units := []\<rparr> = base" using ub by simp
      then show ?thesis using Val True noop
        by (simp add: unitOfRow_def firstAppearance_Nil)
    next
      case False
      have "firstAppearance [u] = [u]" by (simp add: firstAppearance_def)
      then show ?thesis using Val False
        by (simp only: jsval.case upd ub unitOfRow_def) simp
    qed
  qed
  show ?thesis
    by (simp only: step fin keys target mine)
qed


lemma firstAppearance_append_unit:
  "firstAppearance (xs @ unitOfRow r) =
     (case unitNumber r of
        Val u \<Rightarrow> if u \<noteq> [] \<and> u \<notin> set (firstAppearance xs)
                 then firstAppearance xs @ [u] else firstAppearance xs
      | Undefined \<Rightarrow> firstAppearance xs
      | Null \<Rightarrow> firstAppearance xs)"
  by (simp add: unitOfRow_def firstAppearance_snoc firstAppearance_set split: jsval.splits)

lemma consolidate_row_old:
  assumes inv: "m = map (\<lambda>k. (k, rawIncident k ps)) (firstAppearance (map incidentNumber ps))"
    and old: "incidentNumber r \<in> set (map incidentNumber ps)"
  shows "consolidate_row m r =
         map (\<lambda>k. (k, rawIncident k (ps @ [r]))) (firstAppearance (map incidentNumber (ps @ [r])))"
proof -
  let ?k0 = "incidentNumber r"
  let ?K = "firstAppearance (map incidentNumber ps)"
  define cur where "cur = rawIncident ?k0 ps"
  define g where "g = (\<lambda>j. rawIncident j ps)"
  have m_def: "m = map (\<lambda>j. (j, g j)) ?K" by (simp add: inv g_def)
  have isin: "?k0 \<in> set ?K" using old by (simp add: firstAppearance_set)
  have dist: "distinct ?K" by (simp add: firstAppearance_distinct)
  have has: "Map_has m ?k0" using isin by (simp add: m_def Map_has_keyed)
  have get: "Map_get m ?k0 = Some cur"
    unfolding m_def using isin by (subst Map_get_keyed) (simp_all add: g_def cur_def)
  have keys: "firstAppearance (map incidentNumber (ps @ [r])) = ?K"
    using old by (simp add: firstAppearance_snoc)
  have others: "\<And>j. j \<noteq> ?k0 \<Longrightarrow> rawIncident j (ps @ [r]) = g j"
    by (auto simp: rawIncident_def rowsOf_snoc g_def)
  have rowsne: "rowsOf ?k0 ps \<noteq> []" using old by (simp add: rowsOf_empty_iff)
  have ucur: "units cur = firstAppearance (reportedUnits (rowsOf ?k0 ps))"
    by (simp add: cur_def rawIncident_def callrow.defs incident.defs)
  have mine: "rawIncident ?k0 (ps @ [r]) =
              cur\<lparr>units := firstAppearance (reportedUnits (rowsOf ?k0 ps) @ unitOfRow r)\<rparr>"
    using rowsne
    by (simp add: cur_def rawIncident_def rowsOf_snoc reportedUnits_def callrow.defs incident.defs)
  have upd: "Map_set m ?k0 v = map (\<lambda>j. (j, if j = ?k0 then v else g j)) ?K" for v
    unfolding m_def using dist isin by (subst Map_set_keyed_old) simp_all
  have target: "map (\<lambda>k. (k, rawIncident k (ps @ [r]))) ?K =
                map (\<lambda>j. (j, if j = ?k0 then rawIncident ?k0 (ps @ [r]) else g j)) ?K"
    using others by auto
  have noop: "m = map (\<lambda>j. (j, if j = ?k0 then cur else g j)) ?K"
    by (simp add: m_def g_def cur_def)
  have same: "cur\<lparr>units := units cur\<rparr> = cur" by simp
  have step: "consolidate_row m r =
        (case unitNumber r of
           Val u \<Rightarrow> if u \<noteq> [] \<and> u \<notin> set (units cur)
                    then Map_set m ?k0 (cur\<lparr>units := units cur @ [u]\<rparr>) else m
         | Undefined \<Rightarrow> m | Null \<Rightarrow> m)"
    unfolding consolidate_row_def Let_def
    by (simp add: has get cong: jsval.case_cong if_cong)
  have fin: "(case unitNumber r of
           Val u \<Rightarrow> if u \<noteq> [] \<and> u \<notin> set (units cur)
                    then Map_set m ?k0 (cur\<lparr>units := units cur @ [u]\<rparr>) else m
         | Undefined \<Rightarrow> m | Null \<Rightarrow> m) =
        map (\<lambda>j. (j, if j = ?k0
                      then cur\<lparr>units := firstAppearance (reportedUnits (rowsOf ?k0 ps) @ unitOfRow r)\<rparr>
                      else g j)) ?K"
  proof (cases "unitNumber r")
    case Undefined
    then show ?thesis using noop same
      by (simp add: firstAppearance_append_unit ucur[symmetric])
  next
    case Null
    then show ?thesis using noop same
      by (simp add: firstAppearance_append_unit ucur[symmetric])
  next
    case (Val u)
    show ?thesis
    proof (cases "u \<noteq> [] \<and> u \<notin> set (units cur)")
      case True
      then show ?thesis using Val
        by (simp only: jsval.case upd firstAppearance_append_unit ucur[symmetric]) simp
    next
      case False
      then have "firstAppearance (reportedUnits (rowsOf ?k0 ps) @ unitOfRow r) = units cur"
        using Val by (simp only: firstAppearance_append_unit jsval.case ucur[symmetric]) simp
      then show ?thesis using Val False noop same
        by (simp only: jsval.case) simp
    qed
  qed
  show ?thesis
    by (simp only: step fin keys target mine)
qed

lemma foldl_consolidate_row:
  "foldl consolidate_row [] rows =
     map (\<lambda>k. (k, rawIncident k rows)) (firstAppearance (map incidentNumber rows))"
proof (induction rows rule: rev_induct)
  case Nil
  then show ?case by (simp add: firstAppearance_Nil)
next
  case (snoc r ps)
  show ?case
  proof (cases "incidentNumber r \<in> set (map incidentNumber ps)")
    case True
    from consolidate_row_old[OF snoc.IH True] show ?thesis by simp
  next
    case False
    from consolidate_row_new[OF snoc.IH False] show ?thesis by simp
  qed
qed

lemma consolidateData_char:
  "consolidateData rows = map (\<lambda>k. incidentOf k rows) (firstAppearance (map incidentNumber rows))"
  by (simp add: consolidateData_def Map_values_def foldl_consolidate_row comp_def
      incidentOf_def rawIncident_def callrow.defs incident.defs)


lemma firstSeen_filter:
  "filter P (firstSeen seen xs) = firstSeen (filter P seen) (filter P xs)"
  by (induction xs arbitrary: seen) auto

lemma firstAppearance_filter:
  "filter P (firstAppearance xs) = firstAppearance (filter P xs)"
  by (simp add: firstAppearance_def firstSeen_filter)

lemma count_one_of_distinct:
  "distinct (map f xs) \<Longrightarrow> k \<in> set (map f xs) \<Longrightarrow> length (filter (\<lambda>x. f x = k) xs) = 1"
proof (induction xs)
  case Nil
  then show ?case by simp
next
  case (Cons x xs)
  show ?case
  proof (cases "f x = k")
    case True
    then have "k \<notin> f ` set xs" using Cons.prems by auto
    then have "filter (\<lambda>x. f x = k) xs = []" by (auto simp: filter_empty_conv)
    then show ?thesis using True by simp
  next
    case False
    then show ?thesis using Cons by auto
  qed
qed

lemma find_hd_filter: "filter P xs \<noteq> [] \<Longrightarrow> find P xs = Some (hd (filter P xs))"
  by (induction xs) auto

lemma hd_rowsOf_key:
  assumes "k \<in> set (map incidentNumber rows)"
  shows "incidentNumber (hd (rowsOf k rows)) = k"
proof -
  have "rowsOf k rows \<noteq> []" using assms by (simp add: rowsOf_empty_iff)
  then have "hd (rowsOf k rows) \<in> set (rowsOf k rows)" by (rule hd_in_set)
  then show ?thesis by (simp add: rowsOf_def)
qed

lemma incidentOf_key:
  "k \<in> set (map incidentNumber rows) \<Longrightarrow> incidentNumber (incidentOf k rows) = k"
  using hd_rowsOf_key[of k rows] by (simp add: incidentOf_def callrow.defs incident.defs)

lemma consolidateData_keys:
  "map incidentNumber (consolidateData rows) = firstAppearance (map incidentNumber rows)"
proof -
  have "map (\<lambda>k. incidentNumber (incidentOf k rows)) (firstAppearance (map incidentNumber rows)) =
        map (\<lambda>k. k) (firstAppearance (map incidentNumber rows))"
    by (rule map_cong) (simp_all only: firstAppearance_set incidentOf_key)
  then show ?thesis by (simp add: consolidateData_char comp_def)
qed

lemma consolidateData_member:
  assumes "i \<in> set (consolidateData rows)"
  shows "incidentNumber i \<in> set (map incidentNumber rows) \<and> i = incidentOf (incidentNumber i) rows"
proof -
  from assms obtain k where k: "k \<in> set (map incidentNumber rows)" and i: "i = incidentOf k rows"
    by (auto simp: consolidateData_char firstAppearance_set)
  from incidentOf_key[OF k] i have "incidentNumber i = k" by simp
  then show ?thesis using k i by simp
qed

lemma incidentOf_truncate: "callrow.truncate (incidentOf k rows) = hd (rowsOf k rows)"
  by (simp add: incidentOf_def callrow.defs incident.defs)

lemma incidentOf_units: "units (incidentOf k rows) = firstAppearance (reportedUnits (rowsOf k rows))"
  by (simp add: incidentOf_def callrow.defs incident.defs)

lemma incidentOf_unitCount: "unitCount (incidentOf k rows) = length (units (incidentOf k rows))"
  by (simp add: incidentOf_def callrow.defs incident.defs)

lemma first_row_of_incident:
  assumes "i \<in> set (consolidateData rows)"
  shows "find (\<lambda>r. incidentNumber r = incidentNumber i) rows = Some (callrow.truncate i)"
proof -
  let ?k = "incidentNumber i"
  from consolidateData_member[OF assms] have k: "?k \<in> set (map incidentNumber rows)"
    and i: "i = incidentOf ?k rows" by simp_all
  have "rowsOf ?k rows \<noteq> []" using k by (simp add: rowsOf_empty_iff)
  then have "find (\<lambda>r. incidentNumber r = ?k) rows = Some (hd (rowsOf ?k rows))"
    unfolding rowsOf_def by (rule find_hd_filter)
  also have "hd (rowsOf ?k rows) = callrow.truncate i"
    using i incidentOf_truncate[of ?k rows] by simp
  finally show ?thesis .
qed

lemma set_reportedUnits:
  "set (reportedUnits rs) = {u. u \<noteq> [] \<and> (\<exists>r \<in> set rs. unitNumber r = Val u)}"
  by (auto simp: reportedUnits_def unitOfRow_def split: jsval.splits if_splits)

lemma reportedUnits_none:
  "(\<forall>r \<in> set rs. \<not> truthy_str (unitNumber r)) \<Longrightarrow> reportedUnits rs = []"
  by (auto simp: reportedUnits_def unitOfRow_def split: jsval.splits)

lemma consolidateData_example: "consolidateData exampleRows = [incidentA1, incidentB2]"
  by (simp add: consolidateData_char exampleRows_def rowA1_101_def rowA1_102_def rowB2_201_def
      emptyRow_def firstAppearance_def incidentOf_def rowsOf_def reportedUnits_def unitOfRow_def
      incidentA1_def incidentB2_def callrow.defs incident.defs)

section \<open>Claims about consolidation\<close>

text \<open>
  C1. For every list of rows, \<open>consolidateData\<close> returns exactly one incident for each
  distinct non-empty incident number; the incidents come in the order in which their
  numbers first appear in the input (this holds of the non-empty numbers, first conjunct,
  and of all numbers, second conjunct); and the row part of every incident, that is every
  field copied from a row, is the first row of the input that carries the incident's
  number: a later row of the same number overwrites nothing.
\<close>

theorem consolidateData_one_incident_per_number:
  "filter nonEmptyKey (map incidentNumber (consolidateData rows)) =
     firstAppearance (filter nonEmptyKey (map incidentNumber rows))
   \<and> map incidentNumber (consolidateData rows) = firstAppearance (map incidentNumber rows)
   \<and> (\<forall>k. nonEmptyKey k \<and> k \<in> set (map incidentNumber rows) \<longrightarrow>
          length (filter (\<lambda>i. incidentNumber i = k) (consolidateData rows)) = 1)
   \<and> (\<forall>i \<in> set (consolidateData rows).
          find (\<lambda>r. incidentNumber r = incidentNumber i) rows = Some (callrow.truncate i))"
proof (intro conjI allI impI ballI)
  show "filter nonEmptyKey (map incidentNumber (consolidateData rows)) =
        firstAppearance (filter nonEmptyKey (map incidentNumber rows))"
    by (simp only: consolidateData_keys firstAppearance_filter)
  show "map incidentNumber (consolidateData rows) = firstAppearance (map incidentNumber rows)"
    by (rule consolidateData_keys)
next
  fix k assume "nonEmptyKey k \<and> k \<in> set (map incidentNumber rows)"
  then have "k \<in> set (map incidentNumber (consolidateData rows))"
    by (simp only: consolidateData_keys firstAppearance_set)
  moreover have "distinct (map incidentNumber (consolidateData rows))"
    by (simp only: consolidateData_keys firstAppearance_distinct)
  ultimately show "length (filter (\<lambda>i. incidentNumber i = k) (consolidateData rows)) = 1"
    by (rule count_one_of_distinct[rotated])
next
  fix i assume "i \<in> set (consolidateData rows)"
  then show "find (\<lambda>r. incidentNumber r = incidentNumber i) rows = Some (callrow.truncate i)"
    by (rule first_row_of_incident)
qed

theorem consolidateData_one_incident_per_number_witness:
  "map incidentNumber (consolidateData exampleRows) = [Val ''A1'', Val ''B2'']
   \<and> nonEmptyKey (Val ''A1'') \<and> Val ''A1'' \<in> set (map incidentNumber exampleRows)
   \<and> length (filter (\<lambda>i. incidentNumber i = Val ''A1'') (consolidateData exampleRows)) = 1
   \<and> incidentA1 \<in> set (consolidateData exampleRows)
   \<and> find (\<lambda>r. incidentNumber r = Val ''A1'') exampleRows = Some rowA1_101
   \<and> callrow.truncate incidentA1 = rowA1_101"
proof -
  have k: "nonEmptyKey (Val ''A1'') \<and> Val ''A1'' \<in> set (map incidentNumber exampleRows)"
    by (simp add: nonEmptyKey_def exampleRows_def rowA1_101_def emptyRow_def)
  have m: "incidentA1 \<in> set (consolidateData exampleRows)"
    by (simp add: consolidateData_example)
  have n: "incidentNumber incidentA1 = Val ''A1''"
    by (simp add: incidentA1_def rowA1_101_def emptyRow_def callrow.defs incident.defs)
  have t: "callrow.truncate incidentA1 = rowA1_101"
    by (simp add: incidentA1_def callrow.defs incident.defs)
  have e: "firstAppearance (map incidentNumber exampleRows) = [Val ''A1'', Val ''B2'']"
    by (simp add: firstAppearance_def exampleRows_def rowA1_101_def rowA1_102_def rowB2_201_def emptyRow_def)
  from consolidateData_one_incident_per_number[of exampleRows] k m n t e
  show ?thesis by auto
qed

lemmas example_defs = exampleRows_def rowA1_101_def rowA1_102_def rowB2_201_def
      emptyRow_def incidentA1_def incidentB2_def

lemmas consolidate_eval = consolidateData_char firstAppearance_def incidentOf_def rowsOf_def
      reportedUnits_def unitOfRow_def callrow.defs incident.defs

lemma filter_key_map:
  "distinct ks \<Longrightarrow> k \<in> set ks \<Longrightarrow> (\<forall>j \<in> set ks. key (f j) = j) \<Longrightarrow>
   filter (\<lambda>x. key x = k) (map f ks) = [f k]"
proof (induction ks)
  case Nil
  then show ?case by simp
next
  case (Cons a ks)
  show ?case
  proof (cases "a = k")
    case True
    then have "k \<notin> set ks" using Cons.prems by simp
    then have "filter (\<lambda>x. key x = k) (map f ks) = []"
      using Cons.prems(3) by (auto simp: filter_empty_conv)
    then show ?thesis using True Cons.prems(3) by simp
  next
    case False
    then show ?thesis using Cons by auto
  qed
qed

lemma consolidateData_group:
  assumes "k \<in> set (map incidentNumber rows)"
  shows "filter (\<lambda>j. incidentNumber j = k) (consolidateData rows) = [incidentOf k rows]"
  unfolding consolidateData_char
proof (rule filter_key_map)
  show "distinct (firstAppearance (map incidentNumber rows))" by (rule firstAppearance_distinct)
  show "k \<in> set (firstAppearance (map incidentNumber rows))"
    using assms by (simp only: firstAppearance_set)
  show "\<forall>j\<in>set (firstAppearance (map incidentNumber rows)). incidentNumber (incidentOf j rows) = j"
    by (simp only: firstAppearance_set incidentOf_key ball_triv) (simp add: incidentOf_key)
qed

section \<open>Claims about the units of an incident\<close>

text \<open>
  C2. For every incident that \<open>consolidateData\<close> produces: \<open>unitCount\<close> is the length of
  \<open>units\<close>; \<open>units\<close> has no duplicate; \<open>units\<close> lists the unit numbers reported by the
  rows of the incident in the order of their first appearance; only rows whose
  \<open>unitNumber\<close> is a non-empty string contribute (a missing, null or empty \<open>unitNumber\<close>
  contributes nothing); and when no row of the incident has such a unit number,
  \<open>units\<close> is empty and \<open>unitCount\<close> is zero.
\<close>

theorem consolidateData_units:
  "\<forall>i \<in> set (consolidateData rows).
      unitCount i = length (units i)
    \<and> distinct (units i)
    \<and> units i = firstAppearance (reportedUnits (rowsOf (incidentNumber i) rows))
    \<and> set (units i) =
        {u. u \<noteq> [] \<and> (\<exists>r \<in> set (rowsOf (incidentNumber i) rows). unitNumber r = Val u)}
    \<and> ((\<forall>r \<in> set (rowsOf (incidentNumber i) rows). \<not> truthy_str (unitNumber r)) \<longrightarrow>
          units i = [] \<and> unitCount i = 0)"
proof
  fix i assume "i \<in> set (consolidateData rows)"
  then have i: "i = incidentOf (incidentNumber i) rows" using consolidateData_member by blast
  let ?rs = "rowsOf (incidentNumber i) rows"
  have u: "units i = firstAppearance (reportedUnits ?rs)"
    using i incidentOf_units[of "incidentNumber i" rows] by simp
  have c: "unitCount i = length (units i)"
    using i incidentOf_unitCount[of "incidentNumber i" rows] by simp
  have d: "distinct (units i)" by (simp only: u firstAppearance_distinct)
  have s: "set (units i) = {u. u \<noteq> [] \<and> (\<exists>r \<in> set ?rs. unitNumber r = Val u)}"
    by (simp only: u firstAppearance_set set_reportedUnits)
  have n: "(\<forall>r \<in> set ?rs. \<not> truthy_str (unitNumber r)) \<longrightarrow> units i = [] \<and> unitCount i = 0"
  proof
    assume "\<forall>r \<in> set ?rs. \<not> truthy_str (unitNumber r)"
    then have "reportedUnits ?rs = []" by (rule reportedUnits_none)
    then show "units i = [] \<and> unitCount i = 0" using u c by (simp add: firstAppearance_Nil)
  qed
  show "unitCount i = length (units i)
    \<and> distinct (units i)
    \<and> units i = firstAppearance (reportedUnits ?rs)
    \<and> set (units i) = {u. u \<noteq> [] \<and> (\<exists>r \<in> set ?rs. unitNumber r = Val u)}
    \<and> ((\<forall>r \<in> set ?rs. \<not> truthy_str (unitNumber r)) \<longrightarrow> units i = [] \<and> unitCount i = 0)"
    using u c d s n by blast
qed

lemma consolidateData_rowNoUnit:
  "consolidateData [rowNoUnit] = [callrow.extend rowNoUnit (incident.fields [] 0)]"
  by (simp add: consolidate_eval rowNoUnit_def emptyRow_def)

theorem consolidateData_units_witness:
  "incidentA1 \<in> set (consolidateData exampleRows)
   \<and> units incidentA1 = [''101'', ''102''] \<and> unitCount incidentA1 = 2
   \<and> distinct (units incidentA1)
   \<and> rowsOf (incidentNumber incidentA1) exampleRows = [rowA1_101, rowA1_102]
   \<and> callrow.extend rowNoUnit (incident.fields [] 0) \<in> set (consolidateData [rowNoUnit])
   \<and> rowsOf (Val ''C3'') [rowNoUnit] = [rowNoUnit]
   \<and> \<not> truthy_str (unitNumber rowNoUnit)
   \<and> units (callrow.extend rowNoUnit (incident.fields [] 0)) = []
   \<and> unitCount (callrow.extend rowNoUnit (incident.fields [] 0)) = 0"
proof -
  have a: "incidentA1 \<in> set (consolidateData exampleRows)"
    by (simp add: consolidateData_example)
  have b: "callrow.extend rowNoUnit (incident.fields [] 0) \<in> set (consolidateData [rowNoUnit])"
    by (simp add: consolidateData_rowNoUnit)
  have r1: "rowsOf (incidentNumber incidentA1) exampleRows = [rowA1_101, rowA1_102]"
    by (simp add: rowsOf_def example_defs callrow.defs incident.defs)
  have r2: "rowsOf (Val ''C3'') [rowNoUnit] = [rowNoUnit]"
    by (simp add: rowsOf_def rowNoUnit_def emptyRow_def)
  have k2: "incidentNumber (callrow.extend rowNoUnit (incident.fields [] 0)) = Val ''C3''"
    by (simp add: rowNoUnit_def emptyRow_def callrow.defs incident.defs)
  have t: "\<not> truthy_str (unitNumber rowNoUnit)"
    by (simp add: rowNoUnit_def emptyRow_def)
  have e: "firstAppearance (reportedUnits [rowA1_101, rowA1_102]) = [''101'', ''102'']"
    by (simp add: firstAppearance_def reportedUnits_def unitOfRow_def example_defs)
  from consolidateData_units[of exampleRows] a
  have A: "unitCount incidentA1 = length (units incidentA1) \<and> distinct (units incidentA1)
      \<and> units incidentA1 = firstAppearance (reportedUnits (rowsOf (incidentNumber incidentA1) exampleRows))"
    by blast
  from consolidateData_units[of "[rowNoUnit]"] b
  have B: "(\<forall>r \<in> set (rowsOf (incidentNumber (callrow.extend rowNoUnit (incident.fields [] 0))) [rowNoUnit]).
               \<not> truthy_str (unitNumber r)) \<longrightarrow>
           units (callrow.extend rowNoUnit (incident.fields [] 0)) = []
           \<and> unitCount (callrow.extend rowNoUnit (incident.fields [] 0)) = 0"
    by blast
  from A r1 e have A': "units incidentA1 = [''101'', ''102''] \<and> unitCount incidentA1 = 2
      \<and> distinct (units incidentA1)" by simp
  from B k2 r2 t have B': "units (callrow.extend rowNoUnit (incident.fields [] 0)) = []
           \<and> unitCount (callrow.extend rowNoUnit (incident.fields [] 0)) = 0" by simp
  show ?thesis using a b r1 r2 t A' B' by blast
qed

section \<open>Rows without an incident number\<close>

text \<open>
  C9, as stated, says that all rows whose incident number is missing or empty end up in
  one single incident. The Map keeps the absent value, \<^verbatim>\<open>null\<close> and the empty string apart,
  so three rows that carry one of these each give three incidents.
\<close>

theorem consolidateData_missing_numbers_counterexample:
  "map incidentNumber (consolidateData missingKeyRows) = [Undefined, Null, Val []]
   \<and> map units (consolidateData missingKeyRows) = [[''1''], [''2''], [''3'']]"
  by (simp add: consolidate_eval missingKeyRows_def emptyRow_def)

text \<open>
  C9, amended. For every list of rows and every missing or empty incident number that
  occurs in it (absent, \<^verbatim>\<open>null\<close>, or the empty string), the rows that carry that same value
  are grouped into exactly one incident under that key: they are neither dropped nor
  made incidents of their own. Its row fields are those of the first such row, and its
  units are the distinct unit numbers of all such rows in first-appearance order.
\<close>

theorem consolidateData_missing_number_grouped:
  "\<forall>k. \<not> nonEmptyKey k \<and> k \<in> set (map incidentNumber rows) \<longrightarrow>
     (\<exists>i. filter (\<lambda>j. incidentNumber j = k) (consolidateData rows) = [i]
        \<and> find (\<lambda>r. incidentNumber r = k) rows = Some (callrow.truncate i)
        \<and> units i = firstAppearance (reportedUnits (rowsOf k rows))
        \<and> unitCount i = length (units i))"
proof (intro allI impI)
  fix k assume "\<not> nonEmptyKey k \<and> k \<in> set (map incidentNumber rows)"
  then have k: "k \<in> set (map incidentNumber rows)" by simp
  let ?i = "incidentOf k rows"
  have g: "filter (\<lambda>j. incidentNumber j = k) (consolidateData rows) = [?i]"
    using k by (rule consolidateData_group)
  then have "?i \<in> set (filter (\<lambda>j. incidentNumber j = k) (consolidateData rows))"
    by simp
  then have "?i \<in> set (consolidateData rows)"
    by simp
  then have "find (\<lambda>r. incidentNumber r = incidentNumber ?i) rows = Some (callrow.truncate ?i)"
    by (rule first_row_of_incident)
  then have f: "find (\<lambda>r. incidentNumber r = k) rows = Some (callrow.truncate ?i)"
    using incidentOf_key[OF k] by simp
  show "\<exists>i. filter (\<lambda>j. incidentNumber j = k) (consolidateData rows) = [i]
        \<and> find (\<lambda>r. incidentNumber r = k) rows = Some (callrow.truncate i)
        \<and> units i = firstAppearance (reportedUnits (rowsOf k rows))
        \<and> unitCount i = length (units i)"
    using g f incidentOf_units[of k rows] incidentOf_unitCount[of k rows] by blast
qed

theorem consolidateData_missing_number_grouped_witness:
  "\<not> nonEmptyKey Undefined \<and> Undefined \<in> set (map incidentNumber unnumberedRows)
   \<and> filter (\<lambda>j. incidentNumber j = Undefined) (consolidateData unnumberedRows) = [unnumberedIncident]
   \<and> find (\<lambda>r. incidentNumber r = Undefined) unnumberedRows = Some (callrow.truncate unnumberedIncident)
   \<and> units unnumberedIncident = [''1'', ''2'']
   \<and> unitCount unnumberedIncident = 2"
proof -
  have h: "\<not> nonEmptyKey Undefined \<and> Undefined \<in> set (map incidentNumber unnumberedRows)"
    by (simp add: nonEmptyKey_def unnumberedRows_def emptyRow_def)
  have e: "filter (\<lambda>j. incidentNumber j = Undefined) (consolidateData unnumberedRows) = [unnumberedIncident]"
    by (simp add: consolidate_eval unnumberedRows_def unnumberedIncident_def example_defs)
  from consolidateData_missing_number_grouped[of unnumberedRows] h
  obtain i where i: "filter (\<lambda>j. incidentNumber j = Undefined) (consolidateData unnumberedRows) = [i]"
    "find (\<lambda>r. incidentNumber r = Undefined) unnumberedRows = Some (callrow.truncate i)"
    "units i = firstAppearance (reportedUnits (rowsOf Undefined unnumberedRows))"
    "unitCount i = length (units i)" by blast
  from i(1) e have "i = unnumberedIncident" by simp
  moreover have "firstAppearance (reportedUnits (rowsOf Undefined unnumberedRows)) = [''1'', ''2'']"
    by (simp add: firstAppearance_def reportedUnits_def unitOfRow_def rowsOf_def unnumberedRows_def example_defs)
  ultimately show ?thesis using h e i by simp
qed

section \<open>Claims about filtering\<close>

lemma str_includes_iff: "str_includes hay needle \<longleftrightarrow> (\<exists>p s. hay = p @ needle @ s)"
proof (induction hay)
  case Nil
  then show ?case by auto
next
  case (Cons c cs)
  have "(\<exists>p s. c # cs = p @ needle @ s) \<longleftrightarrow>
        (\<exists>s. c # cs = needle @ s) \<or> (\<exists>p s. cs = p @ needle @ s)"
  proof
    assume "\<exists>p s. c # cs = p @ needle @ s"
    then obtain p s where ps: "c # cs = p @ needle @ s" by blast
    show "(\<exists>s. c # cs = needle @ s) \<or> (\<exists>p s. cs = p @ needle @ s)"
    proof (cases p)
      case Nil
      then show ?thesis using ps by auto
    next
      case (Cons a p')
      then show ?thesis using ps by auto
    qed
  next
    assume "(\<exists>s. c # cs = needle @ s) \<or> (\<exists>p s. cs = p @ needle @ s)"
    then show "\<exists>p s. c # cs = p @ needle @ s"
    proof
      assume "\<exists>s. c # cs = needle @ s"
      then show ?thesis by (metis append_Nil)
    next
      assume "\<exists>p s. cs = p @ needle @ s"
      then show ?thesis by (metis append_Cons)
    qed
  qed
  moreover have "(\<exists>s. c # cs = needle @ s) \<longleftrightarrow> take (length needle) (c # cs) = needle"
    by (metis append_eq_conv_conj append_take_drop_id)
  ultimately show ?case using Cons by simp
qed

lemma is_space_toLowerCase_char: "is_space (toLowerCase_char c) = is_space c"
  by (cases c) (auto simp: is_space_def toLowerCase_char_def Let_def)

lemma dropWhile_space_lower:
  "dropWhile is_space (toLowerCase s) = toLowerCase (dropWhile is_space s)"
  by (induction s) (simp_all add: toLowerCase_def is_space_toLowerCase_char)

lemma toLowerCase_rev: "toLowerCase (rev s) = rev (toLowerCase s)"
  by (simp add: toLowerCase_def rev_map)

lemma trim_toLowerCase: "trim (toLowerCase s) = toLowerCase (trim s)"
  by (simp add: trim_def dropWhile_space_lower toLowerCase_rev[symmetric])

lemma filterCallback_iff:
  "filterCallback d (trim (toLowerCase q)) c \<longleftrightarrow> divisionPredicate d c \<and> searchPredicate q c"
  by (auto simp: filterCallback_def divisionPredicate_def searchPredicate_def Let_def trim_toLowerCase)

text \<open>
  C3. For every page state, that is every list of incidents and every filter state,
  \<open>getFilteredCalls\<close> returns exactly the incidents that satisfy both predicates, in
  input order: the division predicate (the selected division is \<open>all\<close>, or it equals the
  incident's division exactly) and the search predicate (the trimmed, case-folded search
  text is empty, or it is a substring of the case-folded incident number, resolved
  location (address, else location), nature of call, or the units joined by spaces).
  The function only reads: what it returns are incidents of the input, unchanged.
\<close>

theorem getFilteredCalls_both_predicates:
  "getFilteredCalls st =
     filter (\<lambda>c. divisionPredicate (el_divisionFilter st) c \<and> searchPredicate (el_searchInput st) c)
            (consolidatedCalls st)
   \<and> set (getFilteredCalls st) \<subseteq> set (consolidatedCalls st)"
proof -
  have "filterCallback (el_divisionFilter st) (trim (toLowerCase (el_searchInput st))) =
        (\<lambda>c. divisionPredicate (el_divisionFilter st) c \<and> searchPredicate (el_searchInput st) c)"
    by (rule ext) (rule filterCallback_iff)
  then show ?thesis by (simp add: getFilteredCalls_def Let_def)
qed

lemma lower_fire: "toLowerCase (trim '' FIRE '') = ''fire''"
  by (simp add: toLowerCase_def toLowerCase_char_def trim_def is_space_def)

theorem getFilteredCalls_both_predicates_witness:
  "getFilteredCalls (exampleState\<lparr>el_divisionFilter := ''C''\<rparr>) = [incidentA1]
   \<and> getFilteredCalls (exampleState\<lparr>el_searchInput := '' FIRE ''\<rparr>) = [incidentA1]
   \<and> getFilteredCalls exampleState = [incidentA1, incidentB2]"
proof -
  have a: "divisionPredicate ''C'' incidentA1 \<and> \<not> divisionPredicate ''C'' incidentB2
        \<and> divisionPredicate ''all'' incidentA1 \<and> divisionPredicate ''all'' incidentB2"
    by (simp add: divisionPredicate_def example_defs callrow.defs incident.defs)
  have b: "searchPredicate '' FIRE '' incidentA1 \<and> \<not> searchPredicate '' FIRE '' incidentB2
        \<and> searchPredicate [] incidentA1 \<and> searchPredicate [] incidentB2"
    unfolding searchPredicate_def lower_fire Let_def
    by (simp add: example_defs callrow.defs incident.defs resolvedLocation_def
        toLowerCase_def toLowerCase_char_def trim_def)
  have s: "consolidatedCalls exampleState = [incidentA1, incidentB2]
         \<and> el_divisionFilter exampleState = ''all'' \<and> el_searchInput exampleState = []"
    by (simp add: exampleState_def)
  from getFilteredCalls_both_predicates[of "exampleState\<lparr>el_divisionFilter := ''C''\<rparr>"]
       getFilteredCalls_both_predicates[of "exampleState\<lparr>el_searchInput := '' FIRE ''\<rparr>"]
       getFilteredCalls_both_predicates[of exampleState] a b s
  show ?thesis by simp
qed

section \<open>Claims about the marker layer\<close>

lemma Map_set_absent: "k \<notin> fst ` set m \<Longrightarrow> Map_set m k v = m @ [(k, v)]"
  by (induction m) auto

lemma Map_get_keyed_absent: "k \<notin> set ks \<Longrightarrow> Map_get (map (\<lambda>j. (j, f j)) ks) k = None"
  by (induction ks) (auto simp: Map_get_def)

lemma Map_get_by_key:
  "distinct (map key cs) \<Longrightarrow> c \<in> set cs \<Longrightarrow>
   Map_get (map (\<lambda>c. (key c, f c)) cs) (key c) = Some (f c)"
  by (induction cs) (auto simp: Map_get_def rev_image_eqI)

lemma Map_get_no_key:
  "k \<notin> key ` set cs \<Longrightarrow> Map_get (map (\<lambda>c. (key c, f c)) cs) k = None"
  by (induction cs) (auto simp: Map_get_def)

lemma foldl_addMarker_layer:
  "markerLayer (foldl addMarker st cs) = markerLayer st @ map newMarker cs"
  by (induction cs arbitrary: st) (simp_all add: addMarker_def Let_def)

lemma foldl_addMarker_lookup:
  "distinct (map incidentNumber cs) \<Longrightarrow>
   incidentNumber ` set cs \<inter> fst ` set (markersByIncident st) = {} \<Longrightarrow>
   markersByIncident (foldl addMarker st cs) =
     markersByIncident st @ map (\<lambda>c. (incidentNumber c, newMarker c)) cs"
proof (induction cs arbitrary: st)
  case Nil
  then show ?case by simp
next
  case (Cons c cs)
  have absent: "incidentNumber c \<notin> fst ` set (markersByIncident st)"
    using Cons.prems(2) by auto
  have m: "markersByIncident (addMarker st c) =
           markersByIncident st @ [(incidentNumber c, newMarker c)]"
    by (simp add: addMarker_def Let_def Map_set_absent[OF absent])
  have d: "distinct (map incidentNumber cs)" using Cons.prems(1) by simp
  have "incidentNumber ` set cs \<inter> fst ` set (markersByIncident (addMarker st c)) = {}"
    using Cons.prems by (auto simp: m)
  from Cons.IH[OF d this] show ?case by (simp add: m)
qed

lemma hasBoth_fun: "(\<lambda>c. not_null (lat c) \<and> not_null (lon c)) = hasBothCoordinates"
  by (rule ext) (simp add: hasBothCoordinates_def)

lemma updateMarkers_layer:
  "markerLayer (updateMarkers visible st) = map newMarker (filter hasBothCoordinates visible)"
  by (simp add: updateMarkers_def Let_def foldl_addMarker_layer hasBoth_fun)

lemma updateMarkers_lookup:
  assumes "distinct (map incidentNumber visible)"
  shows "markersByIncident (updateMarkers visible st) =
         map (\<lambda>c. (incidentNumber c, newMarker c)) (filter hasBothCoordinates visible)"
proof -
  have "distinct (map incidentNumber (filter hasBothCoordinates visible))"
    using assms by (rule distinct_map_filter)
  then show ?thesis
    by (simp add: updateMarkers_def Let_def foldl_addMarker_lookup hasBoth_fun)
qed

lemma foldl_upsertMarker_layer:
  "\<forall>c \<in> set cs. hasBothCoordinates c \<Longrightarrow>
   markerLayer_p0 (foldl upsertMarker st cs) = markerLayer_p0 st @ map newMarker_p0 cs"
proof (induction cs arbitrary: st)
  case Nil
  then show ?case by simp
next
  case (Cons c cs)
  then have "isFinite (lat c) \<and> isFinite (lon c)"
    by (cases "lat c"; cases "lon c") (simp_all add: hasBothCoordinates_def)
  then show ?case using Cons by (simp add: upsertMarker_def Let_def)
qed

lemma foldl_upsertMarker_lookup:
  "\<forall>c \<in> set cs. hasBothCoordinates c \<Longrightarrow>
   distinct (map incidentNumber cs) \<Longrightarrow>
   incidentNumber ` set cs \<inter> fst ` set (markerByIncident st) = {} \<Longrightarrow>
   markerByIncident (foldl upsertMarker st cs) =
     markerByIncident st @ map (\<lambda>c. (incidentNumber c, newMarker_p0 c)) cs"
proof (induction cs arbitrary: st)
  case Nil
  then show ?case by simp
next
  case (Cons c cs)
  have fin: "isFinite (lat c) \<and> isFinite (lon c)"
    using Cons.prems(1) by (cases "lat c"; cases "lon c") (simp_all add: hasBothCoordinates_def)
  have absent: "incidentNumber c \<notin> fst ` set (markerByIncident st)"
    using Cons.prems(3) by auto
  have m: "markerByIncident (upsertMarker st c) =
           markerByIncident st @ [(incidentNumber c, newMarker_p0 c)]"
    using fin by (simp add: upsertMarker_def Let_def Map_set_absent[OF absent])
  have d: "distinct (map incidentNumber cs)" using Cons.prems(2) by simp
  have a: "\<forall>c \<in> set cs. hasBothCoordinates c" using Cons.prems(1) by simp
  have "incidentNumber ` set cs \<inter> fst ` set (markerByIncident (upsertMarker st c)) = {}"
    using Cons.prems by (auto simp: m)
  from Cons.IH[OF a d this] show ?case by (simp add: m)
qed

lemma isFinite_both: "(isFinite (lat c) \<and> isFinite (lon c)) = hasBothCoordinates c"
  by (cases "lat c"; cases "lon c") (simp_all add: hasBothCoordinates_def)

lemma isFinite_fun: "(\<lambda>c. isFinite (lat c) \<and> isFinite (lon c)) = hasBothCoordinates"
  by (rule ext) (rule isFinite_both)

lemma foldl_upsertMarker_other:
  "lastFitDone (foldl upsertMarker st cs) = lastFitDone st \<and>
   fitBoundsCalls_p0 (foldl upsertMarker st cs) = fitBoundsCalls_p0 st"
  by (induction cs arbitrary: st) (simp_all add: upsertMarker_def Let_def)

lemma clearAndRenderMarkers_layer:
  "markerLayer_p0 (clearAndRenderMarkers cs st) = map newMarker_p0 (filter hasBothCoordinates cs)"
proof -
  have "markerLayer_p0 (foldl upsertMarker (st\<lparr>markerLayer_p0 := [], markerByIncident := []\<rparr>)
          (filter hasBothCoordinates cs)) = map newMarker_p0 (filter hasBothCoordinates cs)"
    by (subst foldl_upsertMarker_layer) simp_all
  then show ?thesis
    by (simp add: clearAndRenderMarkers_def Let_def isFinite_fun foldl_upsertMarker_other)
qed

lemma clearAndRenderMarkers_lookup:
  assumes "distinct (map incidentNumber cs)"
  shows "markerByIncident (clearAndRenderMarkers cs st) =
         map (\<lambda>c. (incidentNumber c, newMarker_p0 c)) (filter hasBothCoordinates cs)"
proof -
  have d: "distinct (map incidentNumber (filter hasBothCoordinates cs))"
    using assms by (rule distinct_map_filter)
  have "markerByIncident (foldl upsertMarker (st\<lparr>markerLayer_p0 := [], markerByIncident := []\<rparr>)
          (filter hasBothCoordinates cs)) =
        map (\<lambda>c. (incidentNumber c, newMarker_p0 c)) (filter hasBothCoordinates cs)"
    using d by (subst foldl_upsertMarker_lookup) simp_all
  then show ?thesis
    by (simp add: clearAndRenderMarkers_def Let_def isFinite_fun foldl_upsertMarker_other)
qed

lemma visible_incidents_distinct:
  "consolidatedCalls st = consolidateData rows \<Longrightarrow>
   distinct (map incidentNumber (getFilteredCalls st))"
  by (simp add: getFilteredCalls_def Let_def distinct_map_filter consolidateData_keys
      firstAppearance_distinct)

lemma updateMarkers_lookup_get:
  assumes d: "distinct (map incidentNumber visible)" and c: "c \<in> set visible"
  shows "Map_get (markersByIncident (updateMarkers visible st)) (incidentNumber c) =
         (if hasBothCoordinates c then Some (newMarker c) else None)"
proof (cases "hasBothCoordinates c")
  case True
  have "distinct (map incidentNumber (filter hasBothCoordinates visible))"
    using d by (rule distinct_map_filter)
  moreover have "c \<in> set (filter hasBothCoordinates visible)" using c True by simp
  ultimately have "Map_get (map (\<lambda>c. (incidentNumber c, newMarker c))
                 (filter hasBothCoordinates visible)) (incidentNumber c) = Some (newMarker c)"
    by (rule Map_get_by_key)
  then show ?thesis using True by (simp add: updateMarkers_lookup[OF d])
next
  case False
  have inj: "inj_on incidentNumber (set visible)" using d by (simp add: distinct_map)
  have "incidentNumber c \<notin> incidentNumber ` set (filter hasBothCoordinates visible)"
  proof
    assume "incidentNumber c \<in> incidentNumber ` set (filter hasBothCoordinates visible)"
    then obtain c' where c': "c' \<in> set visible" "hasBothCoordinates c'"
      "incidentNumber c' = incidentNumber c" by auto
    from inj c'(1) c c'(3) have "c' = c" by (auto dest: inj_onD)
    then show False using c'(2) False by simp
  qed
  then have "Map_get (map (\<lambda>c. (incidentNumber c, newMarker c))
                 (filter hasBothCoordinates visible)) (incidentNumber c) = None"
    by (rule Map_get_no_key)
  then show ?thesis using False by (simp add: updateMarkers_lookup[OF d])
qed

text \<open>
  C4. For every call of the marker synchronizer with a list of visible incidents
  (incidents have pairwise different numbers) and whatever the marker layer and the
  lookup held before: afterwards the layer holds exactly one marker for each visible
  incident whose \<open>lat\<close> and \<open>lon\<close> are both non-null, in list order, and nothing else; the
  lookup holds exactly these markers under their incident numbers; looking up a visible
  incident gives its marker when it has both coordinates and nothing when it has not.
  Neither result depends on the state before the call, so no earlier marker survives.
  The same holds of \<open>clearAndRenderMarkers\<close> and \<open>upsertMarker\<close> of the second script.
\<close>

theorem marker_sync_full_rebuild:
  assumes "distinct (map incidentNumber visible)" and "distinct (map incidentNumber cs)"
  shows "markerLayer (updateMarkers visible st) = map newMarker (filter hasBothCoordinates visible)
       \<and> markersByIncident (updateMarkers visible st) =
           map (\<lambda>c. (incidentNumber c, newMarker c)) (filter hasBothCoordinates visible)
       \<and> (\<forall>c \<in> set visible.
             Map_get (markersByIncident (updateMarkers visible st)) (incidentNumber c) =
             (if hasBothCoordinates c then Some (newMarker c) else None))
       \<and> markerLayer_p0 (clearAndRenderMarkers cs st0) =
           map newMarker_p0 (filter hasBothCoordinates cs)
       \<and> markerByIncident (clearAndRenderMarkers cs st0) =
           map (\<lambda>c. (incidentNumber c, newMarker_p0 c)) (filter hasBothCoordinates cs)"
proof (intro conjI ballI)
  show "markerLayer (updateMarkers visible st) = map newMarker (filter hasBothCoordinates visible)"
    by (rule updateMarkers_layer)
  show "markersByIncident (updateMarkers visible st) =
           map (\<lambda>c. (incidentNumber c, newMarker c)) (filter hasBothCoordinates visible)"
    using assms(1) by (rule updateMarkers_lookup)
  show "markerLayer_p0 (clearAndRenderMarkers cs st0) =
           map newMarker_p0 (filter hasBothCoordinates cs)"
    by (rule clearAndRenderMarkers_layer)
  show "markerByIncident (clearAndRenderMarkers cs st0) =
           map (\<lambda>c. (incidentNumber c, newMarker_p0 c)) (filter hasBothCoordinates cs)"
    using assms(2) by (rule clearAndRenderMarkers_lookup)
next
  fix c assume "c \<in> set visible"
  with assms(1) show "Map_get (markersByIncident (updateMarkers visible st)) (incidentNumber c) =
             (if hasBothCoordinates c then Some (newMarker c) else None)"
    by (rule updateMarkers_lookup_get)
qed

theorem marker_sync_full_rebuild_witness:
  "distinct (map incidentNumber [incidentA1, incidentB2])
   \<and> distinct (map incidentNumber [rowA1_101, rowB2_201])
   \<and> markerLayer staleState = [newMarker incidentB2]
   \<and> markerLayer (updateMarkers [incidentA1, incidentB2] staleState) = [newMarker incidentA1]
   \<and> markersByIncident (updateMarkers [incidentA1, incidentB2] staleState) =
       [(Val ''A1'', newMarker incidentA1)]
   \<and> Map_get (markersByIncident (updateMarkers [incidentA1, incidentB2] staleState)) (Val ''B2'') = None
   \<and> markerLayer_p0 (clearAndRenderMarkers [rowA1_101, rowB2_201] exampleState_p0) =
       [newMarker_p0 rowA1_101]
   \<and> markerByIncident (clearAndRenderMarkers [rowA1_101, rowB2_201] exampleState_p0) =
       [(Val ''A1'', newMarker_p0 rowA1_101)]"
proof -
  have d1: "distinct (map incidentNumber [incidentA1, incidentB2])"
    by (simp add: example_defs callrow.defs incident.defs)
  have d2: "distinct (map incidentNumber [rowA1_101, rowB2_201])"
    by (simp add: example_defs)
  have f1: "filter hasBothCoordinates [incidentA1, incidentB2] = [incidentA1]"
    by (simp add: hasBothCoordinates_def example_defs callrow.defs incident.defs)
  have f2: "filter hasBothCoordinates [rowA1_101, rowB2_201] = [rowA1_101]"
    by (simp add: hasBothCoordinates_def example_defs)
  have k: "incidentNumber incidentA1 = Val ''A1'' \<and> incidentNumber incidentB2 = Val ''B2''
         \<and> incidentNumber rowA1_101 = Val ''A1'' \<and> \<not> hasBothCoordinates incidentB2"
    by (simp add: hasBothCoordinates_def example_defs callrow.defs incident.defs)
  have s: "markerLayer staleState = [newMarker incidentB2]"
    by (simp add: staleState_def)
  from marker_sync_full_rebuild[OF d1 d2, of staleState exampleState_p0] d1 d2 f1 f2 k s
  show ?thesis by (simp add: Map_get_def)
qed

section \<open>Claims about the counters and the mapped classification\<close>

lemma truthy_fun: "(\<lambda>c. truthy_num (lat c) \<and> truthy_num (lon c)) = truthyCoordinates"
  by (rule ext) (simp add: truthyCoordinates_def)

lemma truthy_implies_both: "truthyCoordinates c \<Longrightarrow> hasBothCoordinates c"
  by (cases "lat c"; cases "lon c") (simp_all add: truthyCoordinates_def hasBothCoordinates_def)

lemma updateStats_counters:
  "el_totalCalls (updateStats data cs st) = length cs
   \<and> el_mappedCalls (updateStats data cs st) = length (filter truthyCoordinates cs)
   \<and> el_unmappedCalls (updateStats data cs st) = length cs - length (filter truthyCoordinates cs)"
  by (simp add: updateStats_def Let_def truthy_fun)

lemma updateStats_independent_of_backend_counts:
  "el_totalCalls (updateStats data cs st) = el_totalCalls (updateStats data' cs st')
   \<and> el_mappedCalls (updateStats data cs st) = el_mappedCalls (updateStats data' cs st')
   \<and> el_unmappedCalls (updateStats data cs st) = el_unmappedCalls (updateStats data' cs st')"
  by (simp add: updateStats_counters)

lemma updateStats_example:
  "el_totalCalls (updateStats exampleSnapshot (consolidateData exampleRows) st) = 2
   \<and> el_mappedCalls (updateStats exampleSnapshot (consolidateData exampleRows) st) = 1
   \<and> el_unmappedCalls (updateStats exampleSnapshot (consolidateData exampleRows) st) = 1"
proof -
  have "filter truthyCoordinates [incidentA1, incidentB2] = [incidentA1]"
    by (simp add: truthyCoordinates_def incidentA1_def incidentB2_def rowA1_101_def
        rowB2_201_def emptyRow_def callrow.defs incident.defs)
  then show ?thesis
    using updateStats_counters[of exampleSnapshot "[incidentA1, incidentB2]" st]
    by (simp add: consolidateData_example)
qed

lemma updateStatus_shows_backend_counts:
  "totalCallsEl (updateStatus data st) = orZero (totalCalls data)
   \<and> mappedCallsEl (updateStatus data st) = orZero (mappedCalls data)
   \<and> unmappedCallsEl (updateStatus data st) = orZero (unmappedCalls data)"
  by (simp add: updateStatus_def)

text \<open>
  C6. The claim says that the status reporter computes its counters from the
  consolidated incidents, counting an incident as mapped exactly when it has coordinates,
  and never from the row-level counters of the backend. \<open>updateStats\<close> of public/app.js
  does take its three counters from the incident list alone (lemma
  \<open>updateStats_independent_of_backend_counts\<close>) and shows one mapped and one unmapped
  incident for the example (lemma \<open>updateStats_example\<close>). Two things go against the claim.
  The test of \<open>updateStats\<close> is \<^verbatim>\<open>c.lat && c.lon\<close>: an incident whose latitude is the number
  zero has both coordinates, gets a marker from \<open>updateMarkers\<close>, and is counted as
  unmapped. And \<open>updateStatus\<close> of the second script prints the counters of the backend:
  for the example snapshot, three calls, one mapped, two unmapped.
\<close>

theorem status_counters_against_claim:
  "hasBothCoordinates zeroLatIncident
   \<and> el_totalCalls (updateStats data [zeroLatIncident] st) = 1
   \<and> el_mappedCalls (updateStats data [zeroLatIncident] st) = 0
   \<and> el_unmappedCalls (updateStats data [zeroLatIncident] st) = 1
   \<and> markerLayer (updateMarkers [zeroLatIncident] st) = [newMarker zeroLatIncident]
   \<and> totalCallsEl (updateStatus exampleSnapshot st0) = 3
   \<and> mappedCallsEl (updateStatus exampleSnapshot st0) = 1
   \<and> unmappedCallsEl (updateStatus exampleSnapshot st0) = 2"
  by (simp add: updateStats_counters updateMarkers_layer truthyCoordinates_def
      hasBothCoordinates_def zeroLatIncident_def updateStatus_def exampleSnapshot_def)

section \<open>What the page functions leave alone\<close>

lemma foldl_addMarker_keeps:
  "firstLoad (foldl addMarker st cs) = firstLoad st
   \<and> fitBoundsCalls (foldl addMarker st cs) = fitBoundsCalls st
   \<and> consolidatedCalls (foldl addMarker st cs) = consolidatedCalls st
   \<and> allCallsRaw (foldl addMarker st cs) = allCallsRaw st
   \<and> el_refreshBtn_disabled (foldl addMarker st cs) = el_refreshBtn_disabled st
   \<and> el_statusLine (foldl addMarker st cs) = el_statusLine st"
  by (induction cs arbitrary: st) (simp_all add: addMarker_def Let_def)

lemma foldl_addMarker_more:
  "el_divisionFilter (foldl addMarker st cs) = el_divisionFilter st
   \<and> el_searchInput (foldl addMarker st cs) = el_searchInput st"
  by (induction cs arbitrary: st) (simp_all add: addMarker_def Let_def)

lemma foldl_addMarker_lookup_any:
  "markerLayer st = markerLayer st' \<Longrightarrow> markersByIncident st = markersByIncident st' \<Longrightarrow>
   markersByIncident (foldl addMarker st cs) = markersByIncident (foldl addMarker st' cs)"
proof (induction cs arbitrary: st st')
  case Nil
  then show ?case by simp
next
  case (Cons c cs)
  have "markerLayer (addMarker st c) = markerLayer (addMarker st' c)"
    "markersByIncident (addMarker st c) = markersByIncident (addMarker st' c)"
    using Cons.prems by (simp_all add: addMarker_def Let_def)
  from Cons.IH[OF this] show ?case by simp
qed

lemma updateMarkers_lookup_any:
  "markersByIncident (updateMarkers cs st) = markersByIncident (updateMarkers cs st')"
  unfolding updateMarkers_def Let_def
  by (rule foldl_addMarker_lookup_any) simp_all

lemma firstLoadBlock_status: "el_statusLine (firstLoadBlock st) = el_statusLine st"
  by (simp add: firstLoadBlock_def Let_def syncDivisions_def)

lemma updateMarkers_keeps:
  "firstLoad (updateMarkers vs st) = firstLoad st
   \<and> fitBoundsCalls (updateMarkers vs st) = fitBoundsCalls st
   \<and> consolidatedCalls (updateMarkers vs st) = consolidatedCalls st
   \<and> allCallsRaw (updateMarkers vs st) = allCallsRaw st
   \<and> el_refreshBtn_disabled (updateMarkers vs st) = el_refreshBtn_disabled st
   \<and> el_statusLine (updateMarkers vs st) = el_statusLine st"
  by (simp add: updateMarkers_def Let_def foldl_addMarker_keeps)

lemma renderList_keeps:
  "firstLoad (renderList cs st) = firstLoad st
   \<and> fitBoundsCalls (renderList cs st) = fitBoundsCalls st
   \<and> consolidatedCalls (renderList cs st) = consolidatedCalls st
   \<and> allCallsRaw (renderList cs st) = allCallsRaw st
   \<and> el_refreshBtn_disabled (renderList cs st) = el_refreshBtn_disabled st
   \<and> el_statusLine (renderList cs st) = el_statusLine st
   \<and> markerLayer (renderList cs st) = markerLayer st
   \<and> markersByIncident (renderList cs st) = markersByIncident st"
  by (simp add: renderList_def Let_def)

lemma render_keeps:
  "firstLoad (render st) = firstLoad st
   \<and> fitBoundsCalls (render st) = fitBoundsCalls st
   \<and> consolidatedCalls (render st) = consolidatedCalls st
   \<and> allCallsRaw (render st) = allCallsRaw st
   \<and> el_refreshBtn_disabled (render st) = el_refreshBtn_disabled st
   \<and> el_statusLine (render st) = el_statusLine st"
  by (simp add: render_def Let_def renderList_keeps updateMarkers_keeps)

lemma updateStats_keeps:
  "firstLoad (updateStats data cs st) = firstLoad st
   \<and> fitBoundsCalls (updateStats data cs st) = fitBoundsCalls st
   \<and> consolidatedCalls (updateStats data cs st) = consolidatedCalls st
   \<and> allCallsRaw (updateStats data cs st) = allCallsRaw st
   \<and> el_refreshBtn_disabled (updateStats data cs st) = el_refreshBtn_disabled st"
  by (simp add: updateStats_def Let_def)

lemma firstLoadBlock_keeps:
  "consolidatedCalls (firstLoadBlock st) = consolidatedCalls st
   \<and> allCallsRaw (firstLoadBlock st) = allCallsRaw st
   \<and> el_refreshBtn_disabled (firstLoadBlock st) = el_refreshBtn_disabled st"
  by (simp add: firstLoadBlock_def Let_def syncDivisions_def)

lemma applySnapshot_disabled:
  "el_refreshBtn_disabled (applySnapshot data st) = el_refreshBtn_disabled st"
  by (simp add: applySnapshot_def Let_def render_keeps firstLoadBlock_keeps updateStats_keeps)

lemma fetchCalls_disabled:
  "el_refreshBtn_disabled (fetchCalls res st) = el_refreshBtn_disabled st"
  by (simp add: fetchCalls_def Let_def applySnapshot_disabled split: http_result.splits body.splits)

section \<open>Claims about failures\<close>

lemma fetchCalls_caught:
  "res = Rejected e \<or> res = Response code NotJson \<or> res = Response code JsonNull \<Longrightarrow>
   fetchCalls res st =
     st\<lparr>el_refreshBtn_spinning := False, el_statusLine := ''Connection Lost'',
        el_statusColor := ''red''\<rparr>"
  by (auto simp: fetchCalls_def Let_def)

lemma pullLatest_failure_keeps_state:
  assumes "res = Rejected e \<or> (res = Response code b \<and> \<not> response_ok code)"
  shows "\<exists>err. pullLatest res st = st\<lparr>statusLineEl := UnableToLoad err\<rparr>"
  using assms by (auto simp: pullLatest_def fetchCalls_p0_def)

lemma getFilteredCalls_cong:
  "consolidatedCalls st' = consolidatedCalls st \<Longrightarrow> el_divisionFilter st' = el_divisionFilter st \<Longrightarrow>
   el_searchInput st' = el_searchInput st \<Longrightarrow> getFilteredCalls st' = getFilteredCalls st"
  by (simp add: getFilteredCalls_def)

lemma render_view:
  "markerLayer (render st) = markerLayer (updateMarkers (getFilteredCalls st) st)
   \<and> markersByIncident (render st) = markersByIncident (updateMarkers (getFilteredCalls st) st)
   \<and> el_callList (render st) = el_callList (renderList (getFilteredCalls st) st)
   \<and> getFilteredCalls (render st) = getFilteredCalls st"
proof -
  have "el_callList (renderList cs (updateMarkers cs st)) = el_callList (renderList cs st)" for cs
    by (simp add: renderList_def Let_def)
  moreover have "el_divisionFilter (render st) = el_divisionFilter st"
    "el_searchInput (render st) = el_searchInput st"
    by (simp_all add: render_def Let_def renderList_def updateMarkers_def foldl_addMarker_more)
  then have "getFilteredCalls (render st) = getFilteredCalls st"
    by (intro getFilteredCalls_cong) (simp_all add: render_keeps)
  ultimately show ?thesis by (simp add: render_def Let_def renderList_keeps)
qed

text \<open>
  Whatever the status code, a response whose body parses to a snapshot replaces the rows
  and the incidents, and the markers, the list and the status line are rebuilt from it.
\<close>

lemma fetchCalls_snapshot_data:
  "allCallsRaw (fetchCalls (Response code (Json data)) st) = callsOrEmpty data
   \<and> consolidatedCalls (fetchCalls (Response code (Json data)) st) =
       consolidateData (callsOrEmpty data)"
  by (simp add: fetchCalls_def applySnapshot_def Let_def render_keeps firstLoadBlock_keeps
      updateStats_keeps)

lemma fetchCalls_snapshot_view:
  "markerLayer (fetchCalls (Response code (Json data)) st) =
     markerLayer (updateMarkers (getFilteredCalls (fetchCalls (Response code (Json data)) st)) st)
   \<and> markersByIncident (fetchCalls (Response code (Json data)) st) =
     markersByIncident (updateMarkers (getFilteredCalls (fetchCalls (Response code (Json data)) st)) st)
   \<and> el_callList (fetchCalls (Response code (Json data)) st) =
     el_callList (renderList (getFilteredCalls (fetchCalls (Response code (Json data)) st)) st)"
proof -
  let ?pre = "firstLoadBlock (updateStats data (consolidateData (callsOrEmpty data))
                (st\<lparr>el_refreshBtn_spinning := True, allCallsRaw := callsOrEmpty data,
                     consolidatedCalls := consolidateData (callsOrEmpty data)\<rparr>))"
  have f: "fetchCalls (Response code (Json data)) st = (render ?pre)\<lparr>el_refreshBtn_spinning := False\<rparr>"
    by (simp add: fetchCalls_def applySnapshot_def Let_def)
  have g: "getFilteredCalls (fetchCalls (Response code (Json data)) st) = getFilteredCalls ?pre"
    unfolding f using render_view[of ?pre] by (simp add: getFilteredCalls_def)
  have m: "markerLayer (updateMarkers cs ?pre) = markerLayer (updateMarkers cs st)
         \<and> markersByIncident (updateMarkers cs ?pre) = markersByIncident (updateMarkers cs st)
         \<and> el_callList (renderList cs ?pre) = el_callList (renderList cs st)" for cs
    by (simp add: updateMarkers_layer renderList_def Let_def updateMarkers_lookup_any)
  show ?thesis unfolding g unfolding f using render_view[of ?pre] m by simp
qed

lemma fetchCalls_snapshot_status:
  "el_statusLine (fetchCalls (Response code (Json data)) st) =
     (if truthy_str (error data) then ''Error: '' @ or_empty (error data)
      else ''System Operational | Live Data'')"
  by (simp add: fetchCalls_def applySnapshot_def Let_def render_keeps firstLoadBlock_status
      updateStats_def)

text \<open>
  C5. The claim says that every failed fetch, a network error or a response whose status
  is not 2xx, is caught by the polling routine, shows a failure message, and leaves the
  rows, the incidents, the markers and the list as they were. \<open>pullLatest\<close> of the second
  script does so (lemma \<open>pullLatest_failure_keeps_state\<close>), and \<open>fetchCalls\<close> of
  public/app.js does so when \<^verbatim>\<open>fetch\<close> rejects or the body does not parse (lemma
  \<open>fetchCalls_caught\<close>). But \<open>fetchCalls\<close> of public/app.js never looks at the status: a
  response with status 500 and a JSON body is applied as a snapshot. With the body
  \<^verbatim>\<open>{"error": "Internal Server Error"}\<close> the loaded page loses its rows, incidents, markers
  and list.
\<close>

theorem fetchCalls_applies_error_response:
  "\<not> response_ok 500
   \<and> allCallsRaw loadedState = exampleRows
   \<and> consolidatedCalls loadedState = [incidentA1, incidentB2]
   \<and> markerLayer loadedState = [newMarker incidentA1]
   \<and> el_callList loadedState = Items [listItem incidentA1, listItem incidentB2]
   \<and> allCallsRaw (fetchCalls (Response 500 (Json errorSnapshot)) loadedState) = []
   \<and> consolidatedCalls (fetchCalls (Response 500 (Json errorSnapshot)) loadedState) = []
   \<and> markerLayer (fetchCalls (Response 500 (Json errorSnapshot)) loadedState) = []
   \<and> markersByIncident (fetchCalls (Response 500 (Json errorSnapshot)) loadedState) = []
   \<and> el_callList (fetchCalls (Response 500 (Json errorSnapshot)) loadedState) = Placeholder
   \<and> el_statusLine (fetchCalls (Response 500 (Json errorSnapshot)) loadedState) =
       ''Error: Internal Server Error''"
proof -
  have before: "allCallsRaw loadedState = exampleRows
      \<and> consolidatedCalls loadedState = [incidentA1, incidentB2]
      \<and> markerLayer loadedState = [newMarker incidentA1]
      \<and> el_callList loadedState = Items [listItem incidentA1, listItem incidentB2]"
    by (simp add: loadedState_def exampleState_def)
  have c: "callsOrEmpty errorSnapshot = []"
    by (simp add: callsOrEmpty_def errorSnapshot_def)
  have e: "truthy_str (error errorSnapshot)
         \<and> or_empty (error errorSnapshot) = ''Internal Server Error''"
    by (simp add: errorSnapshot_def)
  have a: "allCallsRaw (fetchCalls (Response 500 (Json errorSnapshot)) loadedState) = []
      \<and> consolidatedCalls (fetchCalls (Response 500 (Json errorSnapshot)) loadedState) = []"
    by (simp add: fetchCalls_snapshot_data c consolidateData_def Map_values_def)
  then have g: "getFilteredCalls (fetchCalls (Response 500 (Json errorSnapshot)) loadedState) = []"
    by (simp add: getFilteredCalls_def Let_def)
  have v: "markerLayer (fetchCalls (Response 500 (Json errorSnapshot)) loadedState) = []
      \<and> markersByIncident (fetchCalls (Response 500 (Json errorSnapshot)) loadedState) = []
      \<and> el_callList (fetchCalls (Response 500 (Json errorSnapshot)) loadedState) = Placeholder"
    using g by (simp add: fetchCalls_snapshot_view updateMarkers_def renderList_def Let_def)
  have s: "el_statusLine (fetchCalls (Response 500 (Json errorSnapshot)) loadedState) =
       ''Error: Internal Server Error''"
    using e by (simp add: fetchCalls_snapshot_status)
  have "\<not> response_ok 500" by (simp add: response_ok_def)
  then show ?thesis using before a v s by simp
qed

section \<open>Claims about the manual refresh\<close>

lemma triggerServerRefresh_disabled_throughout:
  "disabledAt_p0 (triggerServerRefresh True res st) =
     [(Requesting, True), (Settling, True), (Fetching, True), (Finished, False)]
   \<and> disabledAt_p0 (triggerServerRefresh False res st) = [(Requesting, True), (Finished, False)]"
  by (simp add: disabledAt_p0_def triggerServerRefresh_def Let_def)

lemma triggerRefresh_ends_enabled:
  "\<not> el_refreshBtn_disabled (snd (last (triggerRefresh ok res st)))"
  by (simp add: triggerRefresh_def Let_def fetchCalls_disabled)

text \<open>
  C7. The claim says that the refresh control stays disabled during the refresh request,
  the settling delay and the data fetch that follows, and is enabled again at the end on
  every path. \<open>triggerServerRefresh\<close> of the second script does so (lemma
  \<open>triggerServerRefresh_disabled_throughout\<close>), and both handlers end with the control
  enabled. \<open>triggerRefresh\<close> of public/app.js hands the data fetch to a timer and enables
  the control at once: the control is enabled during the delay and during the fetch.
\<close>

theorem triggerRefresh_enabled_before_fetch:
  "disabledAt (triggerRefresh True res st) =
     [(Requesting, True), (Settling, False), (Fetching, False), (Finished, False)]
   \<and> disabledAt (triggerRefresh False res st) = [(Requesting, True), (Finished, False)]"
  by (simp add: disabledAt_def triggerRefresh_def Let_def fetchCalls_disabled)

section \<open>Claims about fitting the view\<close>

lemma firstLoadBlock_fit:
  "firstLoad (firstLoadBlock st) = False
   \<and> fitBoundsCalls (firstLoadBlock st) =
       fitBoundsCalls st @
       (if firstLoad st \<and> filter truthyCoordinates (consolidatedCalls st) \<noteq> []
        then [map (\<lambda>c. (lat c, lon c)) (filter truthyCoordinates (consolidatedCalls st))]
        else [])"
  by (simp add: firstLoadBlock_def Let_def syncDivisions_def truthy_fun)

lemma fetchCalls_snapshot_fit:
  "firstLoad (fetchCalls (Response code (Json data)) st) = False
   \<and> fitBoundsCalls (fetchCalls (Response code (Json data)) st) =
       fitBoundsCalls st @
       (if firstLoad st \<and> filter truthyCoordinates (consolidateData (callsOrEmpty data)) \<noteq> []
        then [map (\<lambda>c. (lat c, lon c))
                  (filter truthyCoordinates (consolidateData (callsOrEmpty data)))]
        else [])"
  by (simp add: fetchCalls_def applySnapshot_def Let_def render_keeps firstLoadBlock_fit
      updateStats_keeps)

lemma fetchCalls_caught_fit:
  "res = Rejected e \<or> res = Response code NotJson \<or> res = Response code JsonNull \<Longrightarrow>
   firstLoad (fetchCalls res st) = firstLoad st
   \<and> fitBoundsCalls (fetchCalls res st) = fitBoundsCalls st"
  by (auto simp: fetchCalls_def Let_def)

lemma http_result_cases:
  obtains e where "res = Rejected e"
  | code where "res = Response code NotJson"
  | code where "res = Response code JsonNull"
  | code data where "res = Response code (Json data)"
proof (cases res)
  case (Rejected e)
  then show ?thesis using that by blast
next
  case (Response code b)
  then show ?thesis using that by (cases b) blast+
qed

lemma fetchCalls_after_first_load:
  assumes "\<not> firstLoad st"
  shows "\<not> firstLoad (fetchCalls res st) \<and> fitBoundsCalls (fetchCalls res st) = fitBoundsCalls st"
proof (cases res rule: http_result_cases)
  case (1 e)
  then show ?thesis using assms fetchCalls_caught_fit[of res e _ st] by simp
next
  case (2 code)
  then show ?thesis using assms fetchCalls_caught_fit[of res _ code st] by simp
next
  case (3 code)
  then show ?thesis using assms fetchCalls_caught_fit[of res _ code st] by simp
next
  case (4 code data)
  then show ?thesis using assms fetchCalls_snapshot_fit[of code data st] by simp
qed

lemma fetchCalls_consistent:
  assumes "firstLoadConsistent st"
  shows "firstLoadConsistent (fetchCalls res st)"
proof (cases res rule: http_result_cases)
  case (1 e)
  then show ?thesis using assms fetchCalls_caught_fit[of res e _ st]
    by (auto simp: firstLoadConsistent_def split: if_splits)
next
  case (2 code)
  then show ?thesis using assms fetchCalls_caught_fit[of res _ code st]
    by (auto simp: firstLoadConsistent_def split: if_splits)
next
  case (3 code)
  then show ?thesis using assms fetchCalls_caught_fit[of res _ code st]
    by (auto simp: firstLoadConsistent_def split: if_splits)
next
  case (4 code data)
  then show ?thesis using assms fetchCalls_snapshot_fit[of code data st]
    by (auto simp: firstLoadConsistent_def split: if_splits)
qed

lemma step_after_first_load:
  assumes "\<not> firstLoad st"
  shows "\<not> firstLoad (step st ev) \<and> fitBoundsCalls (step st ev) = fitBoundsCalls st"
proof (cases ev)
  case (Poll res)
  then show ?thesis using fetchCalls_after_first_load[OF assms, of res] by (simp add: step_def)
next
  case (FilterChange d s)
  then show ?thesis using assms by (simp add: step_def render_keeps)
next
  case (RefreshClick ok res)
  let ?st2 = "st\<lparr>el_refreshBtn_disabled := True, el_statusLine := ''Requesting update...'',
                  el_refreshBtn_disabled := False\<rparr>"
  have "\<not> firstLoad ?st2" using assms by simp
  from fetchCalls_after_first_load[OF this, of res] assms RefreshClick
  show ?thesis by (cases ok) (simp_all add: step_def triggerRefresh_def Let_def)
qed

lemma step_consistent:
  assumes "firstLoadConsistent st"
  shows "firstLoadConsistent (step st ev)"
proof (cases ev)
  case (Poll res)
  then show ?thesis using fetchCalls_consistent[OF assms, of res] by (simp add: step_def)
next
  case (FilterChange d s)
  then show ?thesis using assms by (auto simp: step_def render_keeps firstLoadConsistent_def split: if_splits)
next
  case (RefreshClick ok res)
  let ?st2 = "st\<lparr>el_refreshBtn_disabled := True, el_statusLine := ''Requesting update...'',
                  el_refreshBtn_disabled := False\<rparr>"
  have c: "firstLoadConsistent ?st2"
    using assms by (auto simp: firstLoadConsistent_def split: if_splits)
  from fetchCalls_consistent[OF c, of res] c RefreshClick
  show ?thesis by (cases ok) (simp_all add: step_def triggerRefresh_def Let_def)
qed

text \<open>
  What does hold of public/app.js: over any run from boot the view is fitted at most
  once, and once the first-load flag is down nothing is fitted any more.
\<close>

lemma run_fit_at_most_once:
  assumes "firstLoad st" "fitBoundsCalls st = []"
  shows "length (fitBoundsCalls (run evs st)) \<le> 1"
proof -
  have "firstLoadConsistent s \<Longrightarrow> firstLoadConsistent (run evs s)" for s
  proof (induction evs arbitrary: s)
    case Nil
    then show ?case by (simp add: run_def)
  next
    case (Cons ev evs)
    from Cons.IH[OF step_consistent[OF Cons.prems, of ev]] show ?case by (simp add: run_def)
  qed
  moreover have "firstLoadConsistent st" using assms by (simp add: firstLoadConsistent_def)
  ultimately have "firstLoadConsistent (run evs st)" by blast
  then show ?thesis by (simp add: firstLoadConsistent_def split: if_splits)
qed

lemma run_after_first_load:
  "\<not> firstLoad st \<Longrightarrow> fitBoundsCalls (run evs st) = fitBoundsCalls st"
proof (induction evs arbitrary: st)
  case Nil
  then show ?case by (simp add: run_def)
next
  case (Cons ev evs)
  from step_after_first_load[OF Cons.prems, of ev]
  have a: "\<not> firstLoad (step st ev)" and b: "fitBoundsCalls (step st ev) = fitBoundsCalls st"
    by simp_all
  from Cons.IH[OF a] b show ?case by (simp add: run_def)
qed

text \<open>The second script fits at most once over any run as well.\<close>

lemma clearAndRenderMarkers_fit:
  "fitFlagConsistent st \<Longrightarrow> fitFlagConsistent (clearAndRenderMarkers cs st)"
  by (auto simp: fitFlagConsistent_def clearAndRenderMarkers_def Let_def foldl_upsertMarker_other
      split: if_splits)

lemma render_p0_fit: "fitFlagConsistent st \<Longrightarrow> fitFlagConsistent (render_p0 st)"
proof -
  assume a: "fitFlagConsistent st"
  have "fitFlagConsistent (renderCallList cs st') = fitFlagConsistent st'" for cs st'
    by (simp add: fitFlagConsistent_def renderCallList_def)
  then show ?thesis using clearAndRenderMarkers_fit[OF a] by (simp add: render_p0_def Let_def)
qed

lemma fitFlagConsistent_cong:
  "lastFitDone st' = lastFitDone st \<Longrightarrow> fitBoundsCalls_p0 st' = fitBoundsCalls_p0 st \<Longrightarrow>
   fitFlagConsistent st' = fitFlagConsistent st"
  by (simp add: fitFlagConsistent_def)

lemma pullLatest_fit: "fitFlagConsistent st \<Longrightarrow> fitFlagConsistent (pullLatest res st)"
proof -
  assume a: "fitFlagConsistent st"
  have pre: "fitFlagConsistent (updateStatus data (syncDivisionFilter cs (st\<lparr>allCalls := cs'\<rparr>)))"
    for data cs cs'
    using a by (auto simp: fitFlagConsistent_def updateStatus_def syncDivisionFilter_def Let_def
        split: if_splits)
  have err: "fitFlagConsistent (st\<lparr>statusLineEl := x\<rparr>)" for x
    using a by (auto simp: fitFlagConsistent_def split: if_splits)
  show ?thesis
    using pre err render_p0_fit
    by (simp add: pullLatest_def Let_def split: sum.splits body.splits)
qed

lemma step_p0_fit: "fitFlagConsistent st \<Longrightarrow> fitFlagConsistent (step_p0 st ev)"
proof (cases ev)
  case (Poll res)
  assume "fitFlagConsistent st"
  then show ?thesis using Poll by (simp add: step_p0_def pullLatest_fit)
next
  case (FilterChange d s)
  assume "fitFlagConsistent st"
  then have "fitFlagConsistent (st\<lparr>divisionFilterEl := d\<rparr>)"
    by (auto simp: fitFlagConsistent_def split: if_splits)
  then show ?thesis using FilterChange by (simp add: step_p0_def render_p0_fit)
next
  case (RefreshClick ok res)
  assume a: "fitFlagConsistent st"
  let ?st1 = "st\<lparr>refreshBtnEl_disabled := True, refreshBtnEl_text := ''Refreshing...''\<rparr>"
  have b: "fitFlagConsistent ?st1" using a by (auto simp: fitFlagConsistent_def split: if_splits)
  have c: "fitFlagConsistent (s\<lparr>refreshBtnEl_disabled := False, refreshBtnEl_text := ''Refresh Now''\<rparr>)
           = fitFlagConsistent s" for s
    by (simp add: fitFlagConsistent_def)
  show ?thesis using RefreshClick a b pullLatest_fit[OF b, of res]
    by (cases ok) (simp_all add: step_p0_def triggerServerRefresh_def Let_def c)
qed

lemma run_p0_fit: "fitFlagConsistent st \<Longrightarrow> fitFlagConsistent (run_p0 evs st)"
proof (induction evs arbitrary: st)
  case Nil
  then show ?case by (simp add: run_p0_def)
next
  case (Cons ev evs)
  from Cons.IH[OF step_p0_fit[OF Cons.prems, of ev]] show ?case by (simp add: run_p0_def)
qed

lemma run_p0_fit_at_most_once:
  assumes "\<not> lastFitDone p0" "fitBoundsCalls_p0 p0 = []"
  shows "length (fitBoundsCalls_p0 (run_p0 evs p0)) \<le> 1"
proof -
  have "fitFlagConsistent p0" using assms by (simp add: fitFlagConsistent_def)
  then have "fitFlagConsistent (run_p0 evs p0)" by (rule run_p0_fit)
  then show ?thesis by (simp add: fitFlagConsistent_def split: if_splits)
qed

text \<open>What a poll does to the view when the filter is \<open>all\<close> and the search box is empty.\<close>

lemma getFilteredCalls_all:
  "el_divisionFilter st = ''all'' \<Longrightarrow> el_searchInput st = [] \<Longrightarrow>
   getFilteredCalls st = consolidatedCalls st"
  by (simp add: getFilteredCalls_def Let_def filterCallback_def trim_def toLowerCase_def)

lemma render_filters:
  "el_divisionFilter (render st) = el_divisionFilter st
   \<and> el_searchInput (render st) = el_searchInput st"
  by (simp add: render_def Let_def renderList_def updateMarkers_def foldl_addMarker_more)

lemma applySnapshot_filters:
  "el_searchInput (applySnapshot data st) = el_searchInput st
   \<and> (el_divisionFilter st = ''all'' \<longrightarrow> el_divisionFilter (applySnapshot data st) = ''all'')"
  by (simp add: applySnapshot_def Let_def render_filters firstLoadBlock_def syncDivisions_def
      updateStats_def)

lemma fetchCalls_filters:
  "el_searchInput (fetchCalls res st) = el_searchInput st
   \<and> (el_divisionFilter st = ''all'' \<longrightarrow> el_divisionFilter (fetchCalls res st) = ''all'')"
proof (cases res rule: http_result_cases)
  case (4 code data)
  then show ?thesis
    using applySnapshot_filters[of data "st\<lparr>el_refreshBtn_spinning := True\<rparr>"]
    by (simp add: fetchCalls_def Let_def)
qed (simp_all add: fetchCalls_def Let_def)

lemma fetchCalls_snapshot_markers:
  assumes "el_divisionFilter st = ''all''" and "el_searchInput st = []"
  shows "markerLayer (fetchCalls (Response code (Json data)) st) =
         map newMarker (filter hasBothCoordinates (consolidateData (callsOrEmpty data)))"
proof -
  let ?F = "fetchCalls (Response code (Json data)) st"
  have "el_divisionFilter ?F = ''all''" "el_searchInput ?F = []"
    using assms fetchCalls_filters[of "Response code (Json data)" st] by simp_all
  then have "getFilteredCalls ?F = consolidatedCalls ?F" by (rule getFilteredCalls_all)
  then have "getFilteredCalls ?F = consolidateData (callsOrEmpty data)"
    by (simp add: fetchCalls_snapshot_data)
  then show ?thesis
    using fetchCalls_snapshot_view[of code data st] by (simp add: updateMarkers_layer)
qed

lemma clearAndRenderMarkers_fits:
  "fitBoundsCalls_p0 (clearAndRenderMarkers cs st) =
     fitBoundsCalls_p0 st @
     (if \<not> lastFitDone st \<and> filter hasBothCoordinates cs \<noteq> []
      then [map (\<lambda>c. (lat c, lon c)) (filter hasBothCoordinates cs)] else [])"
  by (simp add: clearAndRenderMarkers_def Let_def foldl_upsertMarker_other isFinite_fun)

lemma pullLatest_not_ok:
  "\<not> response_ok code \<Longrightarrow>
   pullLatest (Response code b) st = st\<lparr>statusLineEl := UnableToLoad (HttpStatus code)\<rparr>"
  by (simp add: pullLatest_def fetchCalls_p0_def)

lemma pullLatest_ok_fits:
  assumes "response_ok code" and "divisionFilterEl st = ''all''"
  shows "fitBoundsCalls_p0 (pullLatest (Response code (Json data)) st) =
     fitBoundsCalls_p0 st @
     (if \<not> lastFitDone st \<and> filter hasBothCoordinates (callsOrEmpty data) \<noteq> []
      then [map (\<lambda>c. (lat c, lon c)) (filter hasBothCoordinates (callsOrEmpty data))] else [])"
proof -
  let ?pre = "updateStatus data (syncDivisionFilter (callsOrEmpty data) (st\<lparr>allCalls := callsOrEmpty data\<rparr>))"
  have p: "pullLatest (Response code (Json data)) st = render_p0 ?pre"
    using assms(1) by (simp add: pullLatest_def fetchCalls_p0_def Let_def)
  have f: "divisionFilterEl ?pre = ''all'' \<and> allCalls ?pre = callsOrEmpty data
         \<and> lastFitDone ?pre = lastFitDone st \<and> fitBoundsCalls_p0 ?pre = fitBoundsCalls_p0 st"
    using assms(2) by (simp add: updateStatus_def syncDivisionFilter_def Let_def)
  then have g: "getFilteredCalls_p0 ?pre = callsOrEmpty data"
    by (simp add: getFilteredCalls_p0_def Let_def)
  have "fitBoundsCalls_p0 (render_p0 ?pre) =
        fitBoundsCalls_p0 (clearAndRenderMarkers (callsOrEmpty data) ?pre)"
    unfolding render_p0_def Let_def g by (simp add: renderCallList_def)
  then show ?thesis unfolding p by (simp add: clearAndRenderMarkers_fits f)
qed

lemma consolidateData_zeroLat: "consolidateData [zeroLatRow] = [zeroLatLoaded]"
  by (simp add: consolidate_eval zeroLatRow_def zeroLatLoaded_def rowA1_101_def emptyRow_def)

text \<open>
  C8. The claim says that the view is fitted on the first successful sync after start
  when at least one mapped incident exists at that point. What holds of public/app.js is
  less: the view is fitted at most once (lemma \<open>run_fit_at_most_once\<close>) and never after
  the first-load flag is down (lemma \<open>run_after_first_load\<close>). The flag is taken down by
  the first response whose body parses, whatever its status, and the fit asks for
  \<^verbatim>\<open>c.lat && c.lon\<close>. So when the first response is an error response with status 500 and
  a JSON body, the first sync that succeeds, which brings the example with its mapped
  incident A1 and draws the marker of A1, fits nothing, and nothing is fitted later. And
  when the first snapshot holds one incident at latitude zero, its marker is drawn and
  nothing is fitted. The second script fits the view in both runs.
\<close>

theorem first_sync_does_not_fit:
  "\<not> response_ok 500 \<and> response_ok 200
   \<and> firstLoad bootState \<and> fitBoundsCalls bootState = []
   \<and> fitBoundsCalls (run errorThenExample bootState) = []
   \<and> consolidatedCalls (run errorThenExample bootState) = [incidentA1, incidentB2]
   \<and> markerLayer (run errorThenExample bootState) = [newMarker incidentA1]
   \<and> fitBoundsCalls_p0 (run_p0 errorThenExample bootState_p0) = [[(Val 1, Val 2)]]
   \<and> hasBothCoordinates zeroLatLoaded
   \<and> fitBoundsCalls (run [Poll (Response 200 (Json zeroLatSnapshot))] bootState) = []
   \<and> markerLayer (run [Poll (Response 200 (Json zeroLatSnapshot))] bootState) =
       [newMarker zeroLatLoaded]
   \<and> fitBoundsCalls_p0 (run_p0 [Poll (Response 200 (Json zeroLatSnapshot))] bootState_p0) =
       [[(Val 0, Val (- 96))]]"
proof -
  let ?e1 = "Response 500 (Json errorSnapshot)"
  let ?e2 = "Response 200 (Json exampleSnapshot)"
  let ?e3 = "Response 200 (Json zeroLatSnapshot)"
  let ?s1 = "fetchCalls ?e1 bootState"
  have ok: "\<not> response_ok 500 \<and> response_ok 200" by (simp add: response_ok_def)
  have boot: "firstLoad bootState \<and> fitBoundsCalls bootState = []
      \<and> el_divisionFilter bootState = ''all'' \<and> el_searchInput bootState = []"
    by (simp add: bootState_def exampleState_def)
  have c1: "callsOrEmpty errorSnapshot = []" by (simp add: callsOrEmpty_def errorSnapshot_def)
  have c2: "callsOrEmpty exampleSnapshot = exampleRows"
    by (simp add: callsOrEmpty_def exampleSnapshot_def)
  have c3: "callsOrEmpty zeroLatSnapshot = [zeroLatRow]"
    by (simp add: callsOrEmpty_def zeroLatSnapshot_def)
  have e0: "consolidateData [] = []" by (simp add: consolidateData_def Map_values_def)
  have hA: "filter hasBothCoordinates [incidentA1, incidentB2] = [incidentA1]"
    by (simp add: hasBothCoordinates_def example_defs callrow.defs incident.defs)
  have hR: "filter hasBothCoordinates exampleRows = [rowA1_101]"
    by (simp add: hasBothCoordinates_def example_defs)
  have lR: "lat rowA1_101 = Val 1 \<and> lon rowA1_101 = Val 2"
    by (simp add: example_defs)
  have z: "hasBothCoordinates zeroLatLoaded \<and> \<not> truthyCoordinates zeroLatLoaded
         \<and> hasBothCoordinates zeroLatRow \<and> lat zeroLatRow = Val 0 \<and> lon zeroLatRow = Val (- 96)"
    by (simp add: hasBothCoordinates_def truthyCoordinates_def zeroLatLoaded_def zeroLatRow_def
        callrow.defs incident.defs)
  have s1: "\<not> firstLoad ?s1 \<and> fitBoundsCalls ?s1 = []
          \<and> el_divisionFilter ?s1 = ''all'' \<and> el_searchInput ?s1 = []"
    using boot fetchCalls_snapshot_fit[of 500 errorSnapshot bootState]
      fetchCalls_filters[of ?e1 bootState]
    by (simp add: c1 e0)
  have r1: "run errorThenExample bootState = fetchCalls ?e2 ?s1"
    by (simp add: run_def errorThenExample_def step_def)
  have a1: "fitBoundsCalls (run errorThenExample bootState) = []"
    unfolding r1 using s1 fetchCalls_snapshot_fit[of 200 exampleSnapshot ?s1] by simp
  have a2: "consolidatedCalls (run errorThenExample bootState) = [incidentA1, incidentB2]"
    unfolding r1 by (simp add: fetchCalls_snapshot_data c2 consolidateData_example)
  have "markerLayer (fetchCalls ?e2 ?s1) =
        map newMarker (filter hasBothCoordinates (consolidateData (callsOrEmpty exampleSnapshot)))"
    using s1 by (intro fetchCalls_snapshot_markers) simp_all
  then have a3: "markerLayer (run errorThenExample bootState) = [newMarker incidentA1]"
    unfolding r1 c2 consolidateData_example hA by simp
  have bp: "\<not> lastFitDone bootState_p0 \<and> fitBoundsCalls_p0 bootState_p0 = []
          \<and> divisionFilterEl bootState_p0 = ''all''"
    by (simp add: bootState_p0_def exampleState_p0_def)
  let ?p1 = "pullLatest ?e1 bootState_p0"
  have p1: "\<not> lastFitDone ?p1 \<and> fitBoundsCalls_p0 ?p1 = [] \<and> divisionFilterEl ?p1 = ''all''"
    using bp ok by (simp add: pullLatest_not_ok)
  have rp: "run_p0 errorThenExample bootState_p0 = pullLatest ?e2 ?p1"
    by (simp add: run_p0_def errorThenExample_def step_p0_def)
  have "fitBoundsCalls_p0 (pullLatest ?e2 ?p1) =
        fitBoundsCalls_p0 ?p1 @
        (if \<not> lastFitDone ?p1 \<and> filter hasBothCoordinates (callsOrEmpty exampleSnapshot) \<noteq> []
         then [map (\<lambda>c. (lat c, lon c)) (filter hasBothCoordinates (callsOrEmpty exampleSnapshot))]
         else [])"
    using ok p1 by (intro pullLatest_ok_fits) simp_all
  then have a4: "fitBoundsCalls_p0 (run_p0 errorThenExample bootState_p0) = [[(Val 1, Val 2)]]"
    unfolding rp c2 hR using p1 lR by simp
  have r3: "run [Poll ?e3] bootState = fetchCalls ?e3 bootState"
    by (simp add: run_def step_def)
  have b1: "fitBoundsCalls (run [Poll ?e3] bootState) = []"
    unfolding r3 using boot z fetchCalls_snapshot_fit[of 200 zeroLatSnapshot bootState]
    by (simp add: c3 consolidateData_zeroLat)
  have "markerLayer (fetchCalls ?e3 bootState) =
        map newMarker (filter hasBothCoordinates (consolidateData (callsOrEmpty zeroLatSnapshot)))"
    using boot by (intro fetchCalls_snapshot_markers) simp_all
  then have b2: "markerLayer (run [Poll ?e3] bootState) = [newMarker zeroLatLoaded]"
    unfolding r3 c3 consolidateData_zeroLat using z by simp
  have rp3: "run_p0 [Poll ?e3] bootState_p0 = pullLatest ?e3 bootState_p0"
    by (simp add: run_p0_def step_p0_def)
  have "fitBoundsCalls_p0 (pullLatest ?e3 bootState_p0) =
        fitBoundsCalls_p0 bootState_p0 @
        (if \<not> lastFitDone bootState_p0 \<and> filter hasBothCoordinates (callsOrEmpty zeroLatSnapshot) \<noteq> []
         then [map (\<lambda>c. (lat c, lon c)) (filter hasBothCoordinates (callsOrEmpty zeroLatSnapshot))]
         else [])"
    using ok bp by (intro pullLatest_ok_fits) simp_all
  then have b3: "fitBoundsCalls_p0 (run_p0 [Poll ?e3] bootState_p0) = [[(Val 0, Val (- 96))]]"
    unfolding rp3 c3 using bp z by simp
  show ?thesis using ok boot a1 a2 a3 a4 z b1 b2 b3 by simp
qed

section \<open>Claims about the mapped classification of each component\<close>

lemma newMarker_inj: "newMarker c = newMarker d \<Longrightarrow> c = d"
proof -
  assume "newMarker c = newMarker d"
  then have "popup (newMarker c) = popup (newMarker d)" by simp
  then show ?thesis by (simp add: newMarker_def)
qed

lemma marker_drawn_iff:
  "c \<in> set visible \<Longrightarrow>
   (newMarker c \<in> set (markerLayer (updateMarkers visible st))) = hasBothCoordinates c"
  by (auto simp: updateMarkers_layer dest: newMarker_inj)

lemma find_by_key:
  "distinct (map key xs) \<Longrightarrow> c \<in> set xs \<Longrightarrow> find (\<lambda>x. key x = key c) xs = Some c"
  by (induction xs) (auto simp: rev_image_eqI)

lemma updateStats_counts_each:
  "el_mappedCalls (updateStats data (xs @ c # ys) st) =
     el_mappedCalls (updateStats data (xs @ ys) st) + (if truthyCoordinates c then 1 else 0)
   \<and> el_unmappedCalls (updateStats data (xs @ c # ys) st) =
     el_unmappedCalls (updateStats data (xs @ ys) st) + (if truthyCoordinates c then 0 else 1)"
proof -
  have "length (filter truthyCoordinates (xs @ ys)) \<le> length (xs @ ys)"
    by (rule length_filter_le)
  then show ?thesis
    using updateStats_counters[of data "xs @ c # ys" st] updateStats_counters[of data "xs @ ys" st]
    by simp
qed

lemma renderList_shown:
  "shownItems (el_callList (renderList cs st)) = map listItem (take 100 cs)"
  by (simp add: renderList_def Let_def shownItems_def)

lemma listItem_fields:
  "item_call (listItem c) = c \<and> item_mapped (listItem c) = truthyCoordinates c"
  by (simp add: listItem_def truthyCoordinates_def)

lemma shown_item_of_visible:
  assumes "i < 100" and "i < length cs"
  shows "i < length (shownItems (el_callList (renderList cs st)))
       \<and> item_call (shownItems (el_callList (renderList cs st)) ! i) = cs ! i
       \<and> item_mapped (shownItems (el_callList (renderList cs st)) ! i) = truthyCoordinates (cs ! i)"
  using assms by (simp add: renderList_shown listItem_fields)

lemma focusCall_found:
  assumes "find (\<lambda>x. incidentNumber x = Val n) (consolidatedCalls st) = Some c"
  shows "focusCall n st =
         (if truthyCoordinates c
          then FlyTo (lat c, lon c) (Map_get (markersByIncident st) (Val n))
          else Alert ''Location not mapped yet.'')"
  using assms by (simp add: focusCall_def truthyCoordinates_def)

lemma zero_kind_iff:
  "(hasBothCoordinates c \<noteq> truthyCoordinates c) =
   (\<exists>x y. lat c = Val x \<and> lon c = Val y \<and> (x = 0 \<or> y = 0))"
  by (cases "lat c"; cases "lon c") (auto simp: truthyCoordinates_def hasBothCoordinates_def)

lemma crowdedList_head:
  "take 100 crowdedList =
     map (\<lambda>k. incidentB2\<lparr>incidentNumber := Val (replicate (Suc k) CHR ''x'')\<rparr>) [0..<100]"
  by (simp add: crowdedList_def)

lemma zeroLat_number: "incidentNumber zeroLatIncident = Val ''A1''"
  by (simp add: zeroLatIncident_def incidentA1_def rowA1_101_def emptyRow_def
      callrow.defs incident.defs)

lemma zeroLat_not_in_head: "zeroLatIncident \<notin> set (take 100 crowdedList)"
proof
  assume "zeroLatIncident \<in> set (take 100 crowdedList)"
  then obtain k where
    "zeroLatIncident = incidentB2\<lparr>incidentNumber := Val (replicate (Suc k) CHR ''x'')\<rparr>"
    unfolding crowdedList_head by auto
  then have "incidentNumber zeroLatIncident =
             incidentNumber (incidentB2\<lparr>incidentNumber := Val (replicate (Suc k) CHR ''x'')\<rparr>)"
    by (rule arg_cong)
  then show False by (simp add: zeroLat_number)
qed

lemma crowdedList_distinct: "distinct (map incidentNumber crowdedList)"
proof -
  have "distinct (map (\<lambda>k. Val (replicate (Suc k) CHR ''x'') :: string jsval) [0..<100])"
    by (simp add: distinct_map inj_on_def)
  moreover have "Val ''A1'' \<notin> (\<lambda>k. Val (replicate (Suc k) CHR ''x'') :: string jsval) ` {0..<100}"
    by auto
  ultimately show ?thesis
    by (simp add: crowdedList_def comp_def zeroLat_number)
qed

text \<open>
  C10, as stated, says of every visible incident whose coordinates are both non-null with
  one of them zero that the list shows its not-mapped indicator and that the focus
  operation reports it as not mapped. The list is cut after a hundred items: in a list of
  101 incidents with pairwise different numbers whose last one lies on the equator, no
  item is shown for that one. And the focus operation is called with the text written
  into the item: for an incident without a number that text is \<^verbatim>\<open>undefined\<close>, no incident
  has that number, and the operation does nothing.
\<close>

theorem mapped_classification_counterexample:
  "distinct (map incidentNumber crowdedList)
   \<and> length crowdedList = 101
   \<and> crowdedList ! 100 = zeroLatIncident
   \<and> hasBothCoordinates zeroLatIncident \<and> \<not> truthyCoordinates zeroLatIncident
   \<and> length (shownItems (el_callList (renderList crowdedList exampleState))) = 100
   \<and> zeroLatIncident \<notin>
       set (map item_call (shownItems (el_callList (renderList crowdedList exampleState))))
   \<and> hasBothCoordinates unnumberedZero \<and> \<not> truthyCoordinates unnumberedZero
   \<and> onclickArgument unnumberedZero = ''undefined''
   \<and> focusCall (onclickArgument unnumberedZero)
        (exampleState\<lparr>consolidatedCalls := [unnumberedZero]\<rparr>) = NoEffect"
proof -
  have l: "length crowdedList = 101 \<and> crowdedList ! 100 = zeroLatIncident"
    by (simp add: crowdedList_def nth_append)
  have z: "hasBothCoordinates zeroLatIncident \<and> \<not> truthyCoordinates zeroLatIncident
         \<and> hasBothCoordinates unnumberedZero \<and> \<not> truthyCoordinates unnumberedZero"
    by (simp add: hasBothCoordinates_def truthyCoordinates_def zeroLatIncident_def
        unnumberedZero_def)
  have s: "map item_call (shownItems (el_callList (renderList crowdedList exampleState))) =
           take 100 crowdedList"
    by (simp add: renderList_shown comp_def listItem_fields)
  have n: "length (shownItems (el_callList (renderList crowdedList exampleState))) = 100"
    using l by (simp add: renderList_shown)
  have o: "onclickArgument unnumberedZero = ''undefined''"
    by (simp add: onclickArgument_def unnumberedZero_def)
  have f: "focusCall ''undefined'' (exampleState\<lparr>consolidatedCalls := [unnumberedZero]\<rparr>) = NoEffect"
    by (simp add: focusCall_def unnumberedZero_def)
  show ?thesis
    using crowdedList_distinct l z n zeroLat_not_in_head o f by (simp only: s) simp
qed

text \<open>
  C10, amended. Let the page hold incidents with pairwise different numbers and take any
  incident that passes the filter. The marker synchronizer draws a marker for it, and
  files it under its number, exactly when its \<open>lat\<close> and \<open>lon\<close> are both non-null. The status
  reporter counts it as mapped exactly when \<open>lat\<close> and \<open>lon\<close> are both truthy and as
  unmapped otherwise. When the incident is among the first hundred visible ones, the list
  shows an item for it whose icon is the mapped one exactly when both are truthy and the
  not-mapped one otherwise. When its incident number is a string, the focus operation
  flies to it and opens its marker exactly when both are truthy and otherwise reports that
  the location is not mapped. The test of the marker synchronizer and the test of the
  other three differ exactly when both coordinates are numbers and one of them is zero:
  on such an incident the marker is drawn while counter, icon and focus say unmapped, and
  on every other incident the four agree.
\<close>

theorem mapped_classification_by_component:
  assumes "distinct (map incidentNumber (consolidatedCalls st))"
    and "c \<in> set (getFilteredCalls st)"
  shows "(newMarker c \<in> set (markerLayer (render st))) = hasBothCoordinates c
       \<and> Map_get (markersByIncident (render st)) (incidentNumber c) =
           (if hasBothCoordinates c then Some (newMarker c) else None)
       \<and> el_mappedCalls (updateStats data (xs @ c # ys) st) =
           el_mappedCalls (updateStats data (xs @ ys) st) + (if truthyCoordinates c then 1 else 0)
       \<and> el_unmappedCalls (updateStats data (xs @ c # ys) st) =
           el_unmappedCalls (updateStats data (xs @ ys) st) + (if truthyCoordinates c then 0 else 1)
       \<and> (\<forall>i. i < 100 \<and> i < length (getFilteredCalls st) \<and> getFilteredCalls st ! i = c \<longrightarrow>
             i < length (shownItems (el_callList (render st)))
             \<and> item_call (shownItems (el_callList (render st)) ! i) = c
             \<and> item_mapped (shownItems (el_callList (render st)) ! i) = truthyCoordinates c)
       \<and> (\<forall>n. incidentNumber c = Val n \<longrightarrow>
             onclickArgument c = n
             \<and> focusCall n (render st) =
                 (if truthyCoordinates c then FlyTo (lat c, lon c) (Some (newMarker c))
                  else Alert ''Location not mapped yet.''))
       \<and> (hasBothCoordinates c \<noteq> truthyCoordinates c) =
           (\<exists>x y. lat c = Val x \<and> lon c = Val y \<and> (x = 0 \<or> y = 0))"
proof -
  let ?vis = "getFilteredCalls st"
  have view: "markerLayer (render st) = markerLayer (updateMarkers ?vis st)"
    "markersByIncident (render st) = markersByIncident (updateMarkers ?vis st)"
    "el_callList (render st) = el_callList (renderList ?vis st)"
    using render_view[of st] by simp_all
  have dv: "distinct (map incidentNumber ?vis)"
    using assms(1) by (simp add: getFilteredCalls_def Let_def distinct_map_filter)
  have cin: "c \<in> set (consolidatedCalls st)"
    using assms(2) by (simp add: getFilteredCalls_def Let_def)
  have M: "(newMarker c \<in> set (markerLayer (render st))) = hasBothCoordinates c"
    unfolding view using assms(2) by (rule marker_drawn_iff)
  have M2: "Map_get (markersByIncident (render st)) (incidentNumber c) =
           (if hasBothCoordinates c then Some (newMarker c) else None)"
    unfolding view using dv assms(2) by (rule updateMarkers_lookup_get)
  have L: "\<forall>i. i < 100 \<and> i < length ?vis \<and> ?vis ! i = c \<longrightarrow>
             i < length (shownItems (el_callList (render st)))
             \<and> item_call (shownItems (el_callList (render st)) ! i) = c
             \<and> item_mapped (shownItems (el_callList (render st)) ! i) = truthyCoordinates c"
    unfolding view using shown_item_of_visible[of _ ?vis st] by auto
  have F: "\<forall>n. incidentNumber c = Val n \<longrightarrow>
             onclickArgument c = n
             \<and> focusCall n (render st) =
                 (if truthyCoordinates c then FlyTo (lat c, lon c) (Some (newMarker c))
                  else Alert ''Location not mapped yet.'')"
  proof (intro allI impI)
    fix n assume n: "incidentNumber c = Val n"
    have "find (\<lambda>x. incidentNumber x = incidentNumber c) (consolidatedCalls st) = Some c"
      using assms(1) cin by (rule find_by_key)
    then have "find (\<lambda>x. incidentNumber x = Val n) (consolidatedCalls (render st)) = Some c"
      using n by (simp add: render_keeps)
    from focusCall_found[OF this]
    have "focusCall n (render st) =
          (if truthyCoordinates c
           then FlyTo (lat c, lon c) (Map_get (markersByIncident (render st)) (Val n))
           else Alert ''Location not mapped yet.'')" .
    moreover have "truthyCoordinates c \<Longrightarrow>
          Map_get (markersByIncident (render st)) (Val n) = Some (newMarker c)"
      using M2 n truthy_implies_both[of c] by simp
    ultimately show "onclickArgument c = n
             \<and> focusCall n (render st) =
                 (if truthyCoordinates c then FlyTo (lat c, lon c) (Some (newMarker c))
                  else Alert ''Location not mapped yet.'')"
      using n by (simp add: onclickArgument_def)
  qed
  show ?thesis
    using M M2 updateStats_counts_each[of data xs c ys st] L F zero_kind_iff[of c]
    by (intro conjI) simp_all
qed

theorem mapped_classification_by_component_witness:
  "distinct (map incidentNumber (consolidatedCalls zeroLatState))
   \<and> zeroLatIncident \<in> set (getFilteredCalls zeroLatState)
   \<and> getFilteredCalls zeroLatState ! 0 = zeroLatIncident
   \<and> incidentNumber zeroLatIncident = Val ''A1''
   \<and> hasBothCoordinates zeroLatIncident \<and> \<not> truthyCoordinates zeroLatIncident
   \<and> newMarker zeroLatIncident \<in> set (markerLayer (render zeroLatState))
   \<and> Map_get (markersByIncident (render zeroLatState)) (Val ''A1'') =
       Some (newMarker zeroLatIncident)
   \<and> el_mappedCalls (updateStats exampleSnapshot [zeroLatIncident] zeroLatState) = 0
   \<and> el_unmappedCalls (updateStats exampleSnapshot [zeroLatIncident] zeroLatState) = 1
   \<and> item_call (shownItems (el_callList (render zeroLatState)) ! 0) = zeroLatIncident
   \<and> \<not> item_mapped (shownItems (el_callList (render zeroLatState)) ! 0)
   \<and> focusCall ''A1'' (render zeroLatState) = Alert ''Location not mapped yet.''
   \<and> distinct (map incidentNumber (consolidatedCalls exampleState))
   \<and> incidentA1 \<in> set (getFilteredCalls exampleState)
   \<and> hasBothCoordinates incidentA1 \<and> truthyCoordinates incidentA1
   \<and> newMarker incidentA1 \<in> set (markerLayer (render exampleState))
   \<and> item_mapped (shownItems (el_callList (render exampleState)) ! 0)
   \<and> focusCall ''A1'' (render exampleState) = FlyTo (Val 1, Val 2) (Some (newMarker incidentA1))"
proof -
  have nA: "incidentNumber incidentA1 = Val ''A1'' \<and> incidentNumber incidentB2 = Val ''B2''
          \<and> lat incidentA1 = Val 1 \<and> lon incidentA1 = Val 2"
    by (simp add: example_defs callrow.defs incident.defs)
  have dz: "distinct (map incidentNumber (consolidatedCalls zeroLatState))"
    using nA by (simp add: zeroLatState_def zeroLat_number)
  have de: "distinct (map incidentNumber (consolidatedCalls exampleState))"
    using nA by (simp add: exampleState_def)
  have gz: "getFilteredCalls zeroLatState = [zeroLatIncident, incidentB2]"
    by (simp add: getFilteredCalls_all zeroLatState_def exampleState_def)
  have ge: "getFilteredCalls exampleState = [incidentA1, incidentB2]"
    by (simp add: getFilteredCalls_all exampleState_def)
  have z: "hasBothCoordinates zeroLatIncident \<and> \<not> truthyCoordinates zeroLatIncident"
    by (simp add: hasBothCoordinates_def truthyCoordinates_def zeroLatIncident_def)
  have a: "hasBothCoordinates incidentA1 \<and> truthyCoordinates incidentA1"
    using nA by (simp add: hasBothCoordinates_def truthyCoordinates_def)
  have cz: "zeroLatIncident \<in> set (getFilteredCalls zeroLatState)" by (simp add: gz)
  have ce: "incidentA1 \<in> set (getFilteredCalls exampleState)" by (simp add: ge)
  have e: "el_mappedCalls (updateStats exampleSnapshot [] zeroLatState) = 0
         \<and> el_unmappedCalls (updateStats exampleSnapshot [] zeroLatState) = 0"
    by (simp add: updateStats_counters)
  note Z = mapped_classification_by_component[OF dz cz, of exampleSnapshot "[]" "[]"]
  note A = mapped_classification_by_component[OF de ce, of exampleSnapshot "[]" "[]"]
  have z1: "newMarker zeroLatIncident \<in> set (markerLayer (render zeroLatState))
      \<and> Map_get (markersByIncident (render zeroLatState)) (Val ''A1'') =
          Some (newMarker zeroLatIncident)
      \<and> el_mappedCalls (updateStats exampleSnapshot [zeroLatIncident] zeroLatState) = 0
      \<and> el_unmappedCalls (updateStats exampleSnapshot [zeroLatIncident] zeroLatState) = 1"
    using Z z e by (simp add: zeroLat_number)
  have z2: "item_call (shownItems (el_callList (render zeroLatState)) ! 0) = zeroLatIncident
      \<and> \<not> item_mapped (shownItems (el_callList (render zeroLatState)) ! 0)"
  proof -
    from Z have "\<forall>i. i < 100 \<and> i < length (getFilteredCalls zeroLatState)
          \<and> getFilteredCalls zeroLatState ! i = zeroLatIncident \<longrightarrow>
          i < length (shownItems (el_callList (render zeroLatState)))
          \<and> item_call (shownItems (el_callList (render zeroLatState)) ! i) = zeroLatIncident
          \<and> item_mapped (shownItems (el_callList (render zeroLatState)) ! i) =
              truthyCoordinates zeroLatIncident" by (elim conjE)
    then have "0 < (100::nat) \<and> 0 < length (getFilteredCalls zeroLatState)
          \<and> getFilteredCalls zeroLatState ! 0 = zeroLatIncident \<longrightarrow>
          item_call (shownItems (el_callList (render zeroLatState)) ! 0) = zeroLatIncident
          \<and> item_mapped (shownItems (el_callList (render zeroLatState)) ! 0) =
              truthyCoordinates zeroLatIncident" by blast
    then show ?thesis using z by (simp add: gz)
  qed
  have z3: "focusCall ''A1'' (render zeroLatState) = Alert ''Location not mapped yet.''"
  proof -
    from Z have "\<forall>n. incidentNumber zeroLatIncident = Val n \<longrightarrow>
          onclickArgument zeroLatIncident = n
          \<and> focusCall n (render zeroLatState) =
            (if truthyCoordinates zeroLatIncident
             then FlyTo (lat zeroLatIncident, lon zeroLatIncident) (Some (newMarker zeroLatIncident))
             else Alert ''Location not mapped yet.'')" by (elim conjE)
    then have "focusCall ''A1'' (render zeroLatState) =
            (if truthyCoordinates zeroLatIncident
             then FlyTo (lat zeroLatIncident, lon zeroLatIncident) (Some (newMarker zeroLatIncident))
             else Alert ''Location not mapped yet.'')"
      using zeroLat_number by blast
    then show ?thesis using z by simp
  qed
  have a1: "newMarker incidentA1 \<in> set (markerLayer (render exampleState))"
    using A a by simp
  have a2: "item_mapped (shownItems (el_callList (render exampleState)) ! 0)"
  proof -
    from A have "\<forall>i. i < 100 \<and> i < length (getFilteredCalls exampleState)
          \<and> getFilteredCalls exampleState ! i = incidentA1 \<longrightarrow>
          i < length (shownItems (el_callList (render exampleState)))
          \<and> item_call (shownItems (el_callList (render exampleState)) ! i) = incidentA1
          \<and> item_mapped (shownItems (el_callList (render exampleState)) ! i) =
              truthyCoordinates incidentA1" by (elim conjE)
    then have "0 < (100::nat) \<and> 0 < length (getFilteredCalls exampleState)
          \<and> getFilteredCalls exampleState ! 0 = incidentA1 \<longrightarrow>
          item_mapped (shownItems (el_callList (render exampleState)) ! 0) =
              truthyCoordinates incidentA1" by blast
    then show ?thesis using a by (simp add: ge)
  qed
  have a3: "focusCall ''A1'' (render exampleState) =
            FlyTo (Val 1, Val 2) (Some (newMarker incidentA1))"
  proof -
    from A have "\<forall>n. incidentNumber incidentA1 = Val n \<longrightarrow>
          onclickArgument incidentA1 = n
          \<and> focusCall n (render exampleState) =
            (if truthyCoordinates incidentA1
             then FlyTo (lat incidentA1, lon incidentA1) (Some (newMarker incidentA1))
             else Alert ''Location not mapped yet.'')" by (elim conjE)
    then have "focusCall ''A1'' (render exampleState) =
            (if truthyCoordinates incidentA1
             then FlyTo (lat incidentA1, lon incidentA1) (Some (newMarker incidentA1))
             else Alert ''Location not mapped yet.'')"
      using nA by blast
    then show ?thesis using a nA by simp
  qed
  have g0: "getFilteredCalls zeroLatState ! 0 = zeroLatIncident" by (simp add: gz)
  show ?thesis
    using dz cz g0 zeroLat_number z z1 z2 z3 de ce a a1 a2 a3 by blast
qed

end
